theory Spec2Isabelle
  imports Complex_Main "HOL-Library.Stream"
begin

section \<open>Monte Carlo trading simulator: data model\<close>

text \<open>
  Shallow embedding of \<^verbatim>\<open>src/monte_carlo_simulator.py\<close>.

  Python floats are idealised as \<^typ>\<open>real\<close>: rounding, overflow and the
  propagation of NaN through arithmetic are outside the model. The two special
  values the code itself produces are kept: \<^verbatim>\<open>float('inf')\<close> for the
  profit factor of a trajectory without losses (\<open>PosInf\<close>), and the NaN numpy returns
  for the mean, median, standard deviation or percentile of an empty list.
\<close>

datatype pyfloat = Fin real | PosInf

datatype npfloat = Num real | NaN

datatype py_error = ZeroDivisionError | ValueError | IndexError

text \<open>The confidence strings \<^verbatim>\<open>'HIGH'\<close>, \<^verbatim>\<open>'MEDIUM'\<close>, \<^verbatim>\<open>'LOW'\<close>.\<close>

datatype confidence = HIGH | MEDIUM | LOW

text \<open>\<^verbatim>\<open>@dataclass TradeStats\<close>.\<close>

record trade_stats =
  win_rate :: real
  avg_win :: real
  avg_loss :: real
  total_trades :: int
  wins :: int
  losses :: int
  high_conf_trades :: int
  high_conf_pnl :: real
  medium_conf_trades :: int
  medium_conf_pnl :: real
  low_conf_trades :: int
  low_conf_pnl :: real
  high_conf_pct :: real
  medium_conf_pct :: real
  low_conf_pct :: real

text \<open>\<^verbatim>\<open>@dataclass SimulationConfig\<close>.\<close>

record simulation_config =
  num_simulations :: int
  num_trades :: int
  initial_capital :: real
  use_compounding :: bool
  high_conf_kelly :: real
  medium_conf_kelly :: real
  low_conf_kelly :: real
  max_position_pct :: real
  max_total_exposure :: real
  correlation_reduction :: real
  slippage_pct :: real
  commission_pct :: real

text \<open>\<^verbatim>\<open>@dataclass SimulationResult\<close>.\<close>

record simulation_result =
  final_capital :: real
  total_pnl :: real
  max_drawdown :: real
  max_drawdown_pct :: real
  longest_win_streak :: nat
  longest_loss_streak :: nat
  total_wins :: nat
  total_losses :: nat
  actual_win_rate :: real
  sharpe_ratio :: real
  profit_factor :: pyfloat
  equity_curve :: "real list"
  drawdown_curve :: "real list"

section \<open>The random generator\<close>

text \<open>
  The code draws from numpy's process-wide generator \<^verbatim>\<open>np.random\<close>, which it
  never seeds. The generator is modelled as the stream of raw samples it is going to hand
  out; every call takes the head and leaves the tail. \<^verbatim>\<open>np.random.random()\<close>
  returns the sample itself (a number of the interval from 0 to 1 in the program), and
  \<^verbatim>\<open>np.random.lognormal(mean, sigma)\<close> is numpy's
  \<^verbatim>\<open>exp(mean + sigma * z)\<close> for a standard normal sample \<open>z\<close>.
  The mean passed is \<^verbatim>\<open>np.log\<close> of an average of the statistics, which is
  the logarithm \<open>ln\<close> for the positive averages the program is meant for.
\<close>

type_synonym rng = "real stream"

definition np_random :: "rng \<Rightarrow> real \<times> rng" where
  "np_random g = (shd g, stl g)"

definition np_lognormal :: "real \<Rightarrow> real \<Rightarrow> rng \<Rightarrow> real \<times> rng" where
  "np_lognormal mean sigma g = (exp (mean + sigma * shd g), stl g)"

section \<open>Sampling one trade\<close>

definition generate_confidence_level :: "trade_stats \<Rightarrow> rng \<Rightarrow> confidence \<times> rng" where
  "generate_confidence_level st g =
     (let (rand, g1) = np_random g in
      if rand < high_conf_pct st then (HIGH, g1)
      else if rand < high_conf_pct st + medium_conf_pct st then (MEDIUM, g1)
      else (LOW, g1))"

fun get_win_rate_by_confidence :: "confidence \<Rightarrow> real" where
  "get_win_rate_by_confidence HIGH = 0.625"
| "get_win_rate_by_confidence MEDIUM = 0.500"
| "get_win_rate_by_confidence LOW = 0.450"

definition simulate_single_trade ::
  "trade_stats \<Rightarrow> simulation_config \<Rightarrow> confidence \<Rightarrow> rng \<Rightarrow> (real \<times> bool) \<times> rng" where
  "simulate_single_trade st cfg conf g =
     (let win_rate = get_win_rate_by_confidence conf;
          (u, g1) = np_random g;
          is_winner = (u < win_rate);
          (pnl, g2) =
            (if is_winner
             then (let (x, g') = np_lognormal (ln (avg_win st)) 0.5 g1 in (x, g'))
             else (let (x, g') = np_lognormal (ln (avg_loss st)) 0.4 g1 in (- x, g')));
          slippage_cost = \<bar>pnl\<bar> * slippage_pct cfg;
          commission_cost = \<bar>pnl\<bar> * commission_pct cfg * 2
      in ((pnl - slippage_cost - commission_cost, is_winner), g2))"

definition calculate_position_size ::
  "simulation_config \<Rightarrow> real \<Rightarrow> confidence \<Rightarrow> real \<Rightarrow> real" where
  "calculate_position_size cfg capital conf risk_pct =
     (let kelly_fraction =
            (case conf of
               HIGH \<Rightarrow> high_conf_kelly cfg
             | MEDIUM \<Rightarrow> medium_conf_kelly cfg
             | LOW \<Rightarrow> low_conf_kelly cfg);
          position_size = capital * kelly_fraction * risk_pct;
          max_position = capital * max_position_pct cfg
      in min position_size max_position)"

section \<open>One trajectory\<close>

text \<open>
  The local variables of \<^verbatim>\<open>_run_single_simulation\<close>, together with the
  generator. A local whose name is also a field of one of the dataclasses carries a
  prime.
\<close>

record sim_state =
  capital :: real
  equity_curve' :: "real list"
  peak_capital :: real
  max_drawdown' :: real
  wins' :: nat
  losses' :: nat
  current_streak :: nat
  longest_win_streak' :: nat
  longest_loss_streak' :: nat
  last_trade_won :: "bool option"
  gross_profit :: real
  gross_loss :: real
  returns :: "real list"
  rng :: rng

definition init_state :: "simulation_config \<Rightarrow> rng \<Rightarrow> sim_state" where
  "init_state cfg g =
     \<lparr> capital = initial_capital cfg,
       equity_curve' = [initial_capital cfg],
       peak_capital = initial_capital cfg,
       max_drawdown' = 0,
       wins' = 0,
       losses' = 0,
       current_streak = 0,
       longest_win_streak' = 0,
       longest_loss_streak' = 0,
       last_trade_won = None,
       gross_profit = 0,
       gross_loss = 0,
       returns = [],
       rng = g \<rparr>"

text \<open>
  First half of the loop body (source lines 199 to 216): draw the confidence level, size
  the position, draw the trade and scale its per-unit PnL. The result is
  \<open>(trade_pnl, is_winner)\<close> and the generator after the three draws. Dividing by an
  initial capital of zero raises.
\<close>

definition next_trade ::
  "simulation_config \<Rightarrow> trade_stats \<Rightarrow> sim_state \<Rightarrow> py_error + ((real \<times> bool) \<times> rng)" where
  "next_trade cfg st s =
     (let (conf, g1) = generate_confidence_level st (rng s);
          position_size =
            (if use_compounding cfg
             then calculate_position_size cfg (capital s) conf 1
             else calculate_position_size cfg (initial_capital cfg) conf 1);
          ((pnl_per_unit, is_winner), g2) = simulate_single_trade st cfg conf g1
      in if initial_capital cfg = 0 then Inl ZeroDivisionError
         else Inr ((pnl_per_unit * (position_size / initial_capital cfg), is_winner), g2))"

text \<open>
  Second half of the loop body (source lines 218 to 260): book the trade. The boolean of
  the result tells whether the loop was left by \<^verbatim>\<open>break\<close>.
\<close>

definition record_trade ::
  "sim_state \<Rightarrow> real \<Rightarrow> bool \<Rightarrow> rng \<Rightarrow> py_error + (sim_state \<times> bool)" where
  "record_trade s trade_pnl is_winner g =
     (let cap = capital s + trade_pnl;
          s1 = (if is_winner
                then (let streak = (if last_trade_won s = Some True
                                    then current_streak s + 1 else 1)
                      in s\<lparr> wins' := wins' s + 1,
                            gross_profit := gross_profit s + \<bar>trade_pnl\<bar>,
                            current_streak := streak,
                            longest_win_streak' := max (longest_win_streak' s) streak,
                            last_trade_won := Some True \<rparr>)
                else (let streak = (if last_trade_won s = Some False
                                    then current_streak s + 1 else 1)
                      in s\<lparr> losses' := losses' s + 1,
                            gross_loss := gross_loss s + \<bar>trade_pnl\<bar>,
                            current_streak := streak,
                            longest_loss_streak' := max (longest_loss_streak' s) streak,
                            last_trade_won := Some False \<rparr>));
          curve = equity_curve' s @ [cap];
          peak = (if cap > peak_capital s then cap else peak_capital s);
          drawdown = peak - cap;
          s2 = s1\<lparr> capital := cap,
                   equity_curve' := curve,
                   peak_capital := peak,
                   max_drawdown' := max (max_drawdown' s) drawdown,
                   rng := g \<rparr>
      in if length curve > 1 \<and> curve ! (length curve - 2) = 0 then Inl ZeroDivisionError
         else
           (let s3 = (if length curve > 1
                      then s2\<lparr> returns := returns s @
                             [(curve ! (length curve - 1) - curve ! (length curve - 2))
                                / curve ! (length curve - 2)] \<rparr>
                      else s2)
            in if cap \<le> 0
               then Inr (s3\<lparr> capital := 0, equity_curve' := curve @ [0] \<rparr>, True)
               else Inr (s3, False)))"

definition trade_step ::
  "simulation_config \<Rightarrow> trade_stats \<Rightarrow> sim_state \<Rightarrow> py_error + (sim_state \<times> bool)" where
  "trade_step cfg st s =
     (case next_trade cfg st s of
        Inl e \<Rightarrow> Inl e
      | Inr ((trade_pnl, is_winner), g) \<Rightarrow> record_trade s trade_pnl is_winner g)"

text \<open>
  \<^verbatim>\<open>for trade_num in range(num_trades)\<close>: the first argument counts the
  iterations that remain.
\<close>

fun trade_loop ::
  "nat \<Rightarrow> simulation_config \<Rightarrow> trade_stats \<Rightarrow> sim_state \<Rightarrow> py_error + (sim_state \<times> bool)" where
  "trade_loop 0 cfg st s = Inr (s, False)"
| "trade_loop (Suc n) cfg st s =
     (case trade_step cfg st s of
        Inl e \<Rightarrow> Inl e
      | Inr (s', broke) \<Rightarrow> if broke then Inr (s', True) else trade_loop n cfg st s')"

subsection \<open>Final metrics\<close>

definition arith_mean :: "real list \<Rightarrow> real" where
  "arith_mean xs = sum_list xs / real (length xs)"

text \<open>\<^verbatim>\<open>np.std\<close> on a non-empty list: the population standard deviation.\<close>

definition pop_std :: "real list \<Rightarrow> real" where
  "pop_std xs = sqrt (arith_mean (map (\<lambda>x. \<bar>x - arith_mean xs\<bar>\<^sup>2) xs))"

text \<open>The loop that derives the drawdown curve; \<open>peak\<close> starts at the first entry.\<close>

fun drawdown_loop :: "real \<Rightarrow> real list \<Rightarrow> real list" where
  "drawdown_loop peak [] = []"
| "drawdown_loop peak (equity # rest) =
     (let peak' = (if equity > peak then equity else peak);
          dd = (if peak' > 0 then (peak' - equity) / peak' * 100 else 0)
      in dd # drawdown_loop peak' rest)"

definition final_metrics ::
  "simulation_config \<Rightarrow> sim_state \<Rightarrow> py_error + simulation_result" where
  "final_metrics cfg s =
    (case equity_curve' s of
       [] \<Rightarrow> Inl IndexError
     | first # _ \<Rightarrow> Inr
     \<lparr> final_capital = capital s,
       total_pnl = capital s - initial_capital cfg,
       max_drawdown = max_drawdown' s,
       max_drawdown_pct =
         (if peak_capital s > 0 then max_drawdown' s / peak_capital s * 100 else 100),
       longest_win_streak = longest_win_streak' s,
       longest_loss_streak = longest_loss_streak' s,
       total_wins = wins' s,
       total_losses = losses' s,
       actual_win_rate =
         (if wins' s + losses' s > 0 then real (wins' s) / real (wins' s + losses' s) else 0),
       sharpe_ratio =
         (if length (returns s) > 0 \<and> pop_std (returns s) > 0
          then arith_mean (returns s) / pop_std (returns s) * sqrt 365 else 0),
       profit_factor =
         (if gross_loss s > 0 then Fin (gross_profit s / gross_loss s) else PosInf),
       equity_curve = equity_curve' s,
       drawdown_curve = drawdown_loop first (equity_curve' s) \<rparr>)"

definition run_single_simulation ::
  "simulation_config \<Rightarrow> trade_stats \<Rightarrow> rng \<Rightarrow> py_error + (simulation_result \<times> rng)" where
  "run_single_simulation cfg st g =
     (case trade_loop (nat (num_trades cfg)) cfg st (init_state cfg g) of
        Inl e \<Rightarrow> Inl e
      | Inr (s, broke) \<Rightarrow>
          (case final_metrics cfg s of
             Inl e \<Rightarrow> Inl e
           | Inr r \<Rightarrow> Inr (r, rng s)))"

text \<open>
  \<^verbatim>\<open>for i in range(num_simulations)\<close> of \<^verbatim>\<open>run_simulation\<close>:
  every trajectory goes on with the generator the one before it left behind.
\<close>

fun run_trajectories ::
  "nat \<Rightarrow> simulation_config \<Rightarrow> trade_stats \<Rightarrow> simulation_result list \<Rightarrow> rng
     \<Rightarrow> py_error + (simulation_result list \<times> rng)" where
  "run_trajectories 0 cfg st results g = Inr (results, g)"
| "run_trajectories (Suc n) cfg st results g =
     (case run_single_simulation cfg st g of
        Inl e \<Rightarrow> Inl e
      | Inr (result, g') \<Rightarrow> run_trajectories n cfg st (results @ [result]) g')"

section \<open>Aggregation\<close>

text \<open>
  The numpy reductions the analysis calls, after numpy's documentation: on an empty list
  \<^verbatim>\<open>np.mean\<close>, \<^verbatim>\<open>np.median\<close>, \<^verbatim>\<open>np.std\<close> and
  \<^verbatim>\<open>np.percentile\<close> warn and return NaN, while \<^verbatim>\<open>np.min\<close> and
  \<^verbatim>\<open>np.max\<close> raise \<^verbatim>\<open>ValueError\<close>. \<^verbatim>\<open>np.percentile\<close>
  uses its default method, linear interpolation between the two closest ranks of the
  sorted data, for a percentile between 0 and 100.
\<close>

definition np_mean :: "real list \<Rightarrow> npfloat" where
  "np_mean xs = (if xs = [] then NaN else Num (arith_mean xs))"

definition np_median :: "real list \<Rightarrow> npfloat" where
  "np_median xs =
     (if xs = [] then NaN
      else (let a = sort xs; n = length a
            in if odd n then Num (a ! (n div 2))
               else Num ((a ! (n div 2 - 1) + a ! (n div 2)) / 2)))"

definition np_std :: "real list \<Rightarrow> npfloat" where
  "np_std xs = (if xs = [] then NaN else Num (pop_std xs))"

fun np_min :: "real list \<Rightarrow> py_error + real" where
  "np_min [] = Inl ValueError"
| "np_min (x # xs) = Inr (fold min xs x)"

fun np_max :: "real list \<Rightarrow> py_error + real" where
  "np_max [] = Inl ValueError"
| "np_max (x # xs) = Inr (fold max xs x)"

text \<open>The linear method: the value at a real-valued rank of the sorted data.\<close>

definition linear_interpolation :: "real list \<Rightarrow> real \<Rightarrow> real" where
  "linear_interpolation a virtual_index =
     (let previous_index = nat \<lfloor>virtual_index\<rfloor>;
          next_index = min (previous_index + 1) (length a - 1);
          gamma = virtual_index - real previous_index
      in a ! previous_index + (a ! next_index - a ! previous_index) * gamma)"

definition np_percentile :: "real list \<Rightarrow> real \<Rightarrow> npfloat" where
  "np_percentile xs q =
     (if xs = [] then NaN
      else (let a = sort xs
            in Num (linear_interpolation a (q / 100 * real (length a - 1)))))"

text \<open>Comparison of numpy floats: a comparison with NaN is false.\<close>

fun np_le :: "npfloat \<Rightarrow> npfloat \<Rightarrow> bool" where
  "np_le (Num x) (Num y) = (x \<le> y)"
| "np_le _ _ = False"

definition percentiles :: "nat list" where
  "percentiles = [1, 5, 10, 25, 50, 75, 90, 95, 99]"

text \<open>
  The dictionary \<^verbatim>\<open>{p: np.percentile(xs, p) for p in percentiles}\<close>, as the
  list of its items in insertion order.
\<close>

definition percentile_table :: "real list \<Rightarrow> (nat \<times> npfloat) list" where
  "percentile_table xs = map (\<lambda>p. (p, np_percentile xs (real p))) percentiles"

text \<open>
  The inner dictionaries of the analysis. \<open>distribution_stats\<close> has the keys
  \<^verbatim>\<open>mean, median, std, min, max, percentiles\<close> of
  \<^verbatim>\<open>'final_capital'\<close>, \<^verbatim>\<open>'total_pnl'\<close> and
  \<^verbatim>\<open>'max_drawdown_pct'\<close>.
\<close>

record distribution_stats =
  d_mean :: npfloat
  d_median :: npfloat
  d_std :: npfloat
  d_min :: real
  d_max :: real
  d_percentiles :: "(nat \<times> npfloat) list"

record win_rate_stats =
  wr_mean :: npfloat
  wr_median :: npfloat
  wr_std :: npfloat

record ratio_stats =
  r_mean :: npfloat
  r_median :: npfloat

record streak_stats =
  ls_mean :: npfloat
  ls_median :: npfloat
  ls_max :: real
  ls_percentiles :: "(nat \<times> npfloat) list"

record analysis =
  a_final_capital :: distribution_stats
  a_total_pnl :: distribution_stats
  a_max_drawdown_pct :: distribution_stats
  a_win_rate :: win_rate_stats
  a_sharpe_ratio :: ratio_stats
  a_profit_factor :: ratio_stats
  a_longest_loss_streak :: streak_stats
  probability_of_profit :: real
  probability_of_ruin :: real

text \<open>
  One six-key dictionary. Python evaluates the entries in order, so on an empty list the
  first to raise is \<^verbatim>\<open>np.min\<close>.
\<close>

definition distribution :: "real list \<Rightarrow> py_error + distribution_stats" where
  "distribution xs =
     (case np_min xs of
        Inl e \<Rightarrow> Inl e
      | Inr lo \<Rightarrow>
          (case np_max xs of
             Inl e \<Rightarrow> Inl e
           | Inr hi \<Rightarrow>
               Inr \<lparr> d_mean = np_mean xs, d_median = np_median xs, d_std = np_std xs,
                     d_min = lo, d_max = hi, d_percentiles = percentile_table xs \<rparr>))"

text \<open>
  \<^verbatim>\<open>[r.profit_factor for r in self.results if r.profit_factor != float('inf')]\<close>
\<close>

fun finite_profit_factors :: "simulation_result list \<Rightarrow> real list" where
  "finite_profit_factors [] = []"
| "finite_profit_factors (r # rs) =
     (case profit_factor r of
        Fin x \<Rightarrow> x # finite_profit_factors rs
      | PosInf \<Rightarrow> finite_profit_factors rs)"

text \<open>\<^verbatim>\<open>sum(1 for x in xs if P(x)) / len(xs) * 100\<close>\<close>

definition percent_where :: "('a \<Rightarrow> bool) \<Rightarrow> 'a list \<Rightarrow> py_error + real" where
  "percent_where P xs =
     (if length xs = 0 then Inl ZeroDivisionError
      else Inr (real (length (filter P xs)) / real (length xs) * 100))"

definition analyze_results ::
  "simulation_config \<Rightarrow> simulation_result list \<Rightarrow> py_error + analysis" where
  "analyze_results cfg results =
     (let final_capitals = map final_capital results;
          total_pnls = map total_pnl results;
          max_drawdowns = map max_drawdown_pct results;
          win_rates = map actual_win_rate results;
          sharpe_ratios = map sharpe_ratio results;
          profit_factors = finite_profit_factors results;
          longest_loss_streaks = map (\<lambda>r. real (longest_loss_streak r)) results
      in case distribution final_capitals of Inl e \<Rightarrow> Inl e | Inr fc \<Rightarrow>
        (case distribution total_pnls of Inl e \<Rightarrow> Inl e | Inr tp \<Rightarrow>
        (case distribution max_drawdowns of Inl e \<Rightarrow> Inl e | Inr md \<Rightarrow>
        (case np_max longest_loss_streaks of Inl e \<Rightarrow> Inl e | Inr ls_hi \<Rightarrow>
        (case percent_where (\<lambda>pnl. pnl > 0) total_pnls of Inl e \<Rightarrow> Inl e | Inr pp \<Rightarrow>
        (case percent_where (\<lambda>cap. cap < initial_capital cfg * 0.5) final_capitals of
           Inl e \<Rightarrow> Inl e
         | Inr pr \<Rightarrow>
         Inr \<lparr> a_final_capital = fc,
               a_total_pnl = tp,
               a_max_drawdown_pct = md,
               a_win_rate = \<lparr> wr_mean = np_mean win_rates, wr_median = np_median win_rates,
                              wr_std = np_std win_rates \<rparr>,
               a_sharpe_ratio = \<lparr> r_mean = np_mean sharpe_ratios,
                                  r_median = np_median sharpe_ratios \<rparr>,
               a_profit_factor = \<lparr> r_mean = np_mean profit_factors,
                                   r_median = np_median profit_factors \<rparr>,
               a_longest_loss_streak =
                 \<lparr> ls_mean = np_mean longest_loss_streaks,
                   ls_median = np_median longest_loss_streaks,
                   ls_max = ls_hi,
                   ls_percentiles = percentile_table longest_loss_streaks \<rparr>,
               probability_of_profit = pp,
               probability_of_ruin = pr \<rparr>))))))"

text \<open>The four percentile dictionaries of an analysis.\<close>

definition percentile_tables :: "analysis \<Rightarrow> (nat \<times> npfloat) list list" where
  "percentile_tables a =
     [d_percentiles (a_final_capital a), d_percentiles (a_total_pnl a),
      d_percentiles (a_max_drawdown_pct a), ls_percentiles (a_longest_loss_streak a)]"

text \<open>
  \<^verbatim>\<open>run_simulation\<close>: the analysis it returns, the results it leaves in
  \<^verbatim>\<open>self.results\<close>, and the generator it leaves behind.
\<close>

definition run_simulation ::
  "simulation_config \<Rightarrow> trade_stats \<Rightarrow> rng
     \<Rightarrow> py_error + (analysis \<times> simulation_result list \<times> rng)" where
  "run_simulation cfg st g =
     (case run_trajectories (nat (num_simulations cfg)) cfg st [] g of
        Inl e \<Rightarrow> Inl e
      | Inr (results, g') \<Rightarrow>
          (case analyze_results cfg results of
             Inl e \<Rightarrow> Inl e
           | Inr a \<Rightarrow> Inr (a, results, g')))"

section \<open>The trades of a trajectory\<close>

text \<open>
  The trades the loop executes from a state, in order, each with its PnL and its win flag:
  the loop replayed, keeping what \<open>next_trade\<close> hands to \<open>record_trade\<close>.
\<close>

fun executed_trades ::
  "nat \<Rightarrow> simulation_config \<Rightarrow> trade_stats \<Rightarrow> sim_state \<Rightarrow> (real \<times> bool) list" where
  "executed_trades 0 cfg st s = []"
| "executed_trades (Suc n) cfg st s =
     (case next_trade cfg st s of
        Inl e \<Rightarrow> []
      | Inr ((trade_pnl, is_winner), g) \<Rightarrow>
          (case record_trade s trade_pnl is_winner g of
             Inl e \<Rightarrow> []
           | Inr (s', broke) \<Rightarrow>
               (trade_pnl, is_winner) # (if broke then [] else executed_trades n cfg st s')))"

text \<open>The absolute PnL of the trades drawn as winners, and of those drawn as losers.\<close>

definition winner_pnl_sum :: "(real \<times> bool) list \<Rightarrow> real" where
  "winner_pnl_sum trades = sum_list (map (\<lambda>t. \<bar>fst t\<bar>) (filter (\<lambda>t. snd t) trades))"

definition loser_pnl_sum :: "(real \<times> bool) list \<Rightarrow> real" where
  "loser_pnl_sum trades = sum_list (map (\<lambda>t. \<bar>fst t\<bar>) (filter (\<lambda>t. \<not> snd t) trades))"

text \<open>
  The sums in the words of the specification: the positive trade PnLs, and the absolute
  values of the negative ones.
\<close>

definition positive_pnl_sum :: "real list \<Rightarrow> real" where
  "positive_pnl_sum pnls = sum_list (filter (\<lambda>p. 0 < p) pnls)"

definition negative_pnl_sum :: "real list \<Rightarrow> real" where
  "negative_pnl_sum pnls = sum_list (map abs (filter (\<lambda>p. p < 0) pnls))"

text \<open>
  Configurations under which a winner cannot have a negative PnL nor a loser a positive
  one: costs that are not negative and take at most the whole magnitude, and position
  fractions that are not negative.
\<close>

definition sign_preserving :: "simulation_config \<Rightarrow> bool" where
  "sign_preserving cfg \<longleftrightarrow>
     0 < initial_capital cfg
     \<and> 0 \<le> slippage_pct cfg \<and> 0 \<le> commission_pct cfg
     \<and> slippage_pct cfg + 2 * commission_pct cfg \<le> 1
     \<and> 0 \<le> high_conf_kelly cfg \<and> 0 \<le> medium_conf_kelly cfg \<and> 0 \<le> low_conf_kelly cfg
     \<and> 0 \<le> max_position_pct cfg"

section \<open>Loop invariant\<close>

text \<open>
  What holds of the state whenever the loop is about to run another trade: the curve ends
  with the current capital, all its entries are strictly positive, and the two gross sums
  are non-negative.
\<close>

definition running :: "sim_state \<Rightarrow> bool" where
  "running s \<longleftrightarrow>
     equity_curve' s \<noteq> [] \<and> last (equity_curve' s) = capital s
     \<and> list_all (\<lambda>x. 0 < x) (equity_curve' s)
     \<and> 0 \<le> gross_profit s \<and> 0 \<le> gross_loss s"

section \<open>Concrete configurations\<close>

text \<open>The defaults of the two dataclasses.\<close>

definition default_stats :: trade_stats where
  "default_stats =
     \<lparr> win_rate = 0.543, avg_win = 6.88, avg_loss = 1.57, total_trades = 35, wins = 19,
       losses = 16, high_conf_trades = 24, high_conf_pnl = 93.90, medium_conf_trades = 10,
       medium_conf_pnl = 11.16, low_conf_trades = 1, low_conf_pnl = 0.50,
       high_conf_pct = 0.67, medium_conf_pct = 0.31, low_conf_pct = 0.02 \<rparr>"

definition default_config :: simulation_config where
  "default_config =
     \<lparr> num_simulations = 10000, num_trades = 1000, initial_capital = 1000.0,
       use_compounding = True, high_conf_kelly = 0.146, medium_conf_kelly = 0.110,
       low_conf_kelly = 0.055, max_position_pct = 0.20, max_total_exposure = 1.50,
       correlation_reduction = 0.30, slippage_pct = 0.005, commission_pct = 0.001 \<rparr>"

text \<open>
  Generators for the examples. The first sample picks the tier (0.1 is HIGH under the
  default distribution), the second decides the win (0.1 wins, 0.9 loses in the HIGH
  tier), and a normal sample of 0 makes the magnitude equal to the configured average.
\<close>

definition winning_draws :: rng where
  "winning_draws = 0.1 ## 0.1 ## 0 ## sconst 0"

definition losing_draws :: rng where
  "losing_draws = 0.1 ## 0.9 ## 0 ## sconst 0"

definition mixed_draws :: rng where
  "mixed_draws = 0.1 ## 0.1 ## 0 ## 0.1 ## 0.9 ## 0 ## sconst 0"

text \<open>Statistics whose average loss is large enough to wipe the account out at once.\<close>

definition heavy_loss_stats :: trade_stats where
  "heavy_loss_stats = default_stats\<lparr> avg_loss := 10000 \<rparr>"

text \<open>
  The configuration of scenario A: one trajectory of one trade, every Kelly fraction 0.1,
  no costs, initial capital 1000; the position cap is the argument.
\<close>

definition scenario_config :: "real \<Rightarrow> simulation_config" where
  "scenario_config cap =
     default_config\<lparr> num_simulations := 1, num_trades := 1,
       high_conf_kelly := 0.1, medium_conf_kelly := 0.1, low_conf_kelly := 0.1,
       max_position_pct := cap, slippage_pct := 0, commission_pct := 0 \<rparr>"

section \<open>Evaluation and basic facts\<close>

lemmas trajectory_defs =
  run_single_simulation_def init_state_def trade_step_def next_trade_def record_trade_def
  generate_confidence_level_def simulate_single_trade_def calculate_position_size_def
  np_random_def np_lognormal_def final_metrics_def Let_def

lemmas example_defs =
  default_stats_def default_config_def winning_draws_def losing_draws_def mixed_draws_def
  heavy_loss_stats_def scenario_config_def

lemma prev_entry: "ec \<noteq> [] \<Longrightarrow> (ec @ [c]) ! (length (ec @ [c]) - 2) = last ec"
  by (cases ec rule: rev_cases) (simp_all add: nth_append)

text \<open>Booking a trade raises exactly when the previous curve entry is zero.\<close>

lemma record_trade_Inl:
  "record_trade s p w g = Inl e \<longleftrightarrow>
     e = ZeroDivisionError \<and> equity_curve' s \<noteq> [] \<and> last (equity_curve' s) = 0"
proof (cases "equity_curve' s = []")
  case True
  then show ?thesis by (simp add: record_trade_def Let_def)
next
  case False
  then have "(equity_curve' s @ [capital s + p]) !
      (length (equity_curve' s @ [capital s + p]) - 2) = last (equity_curve' s)"
    by (rule prev_entry)
  with False show ?thesis
    by (auto simp add: record_trade_def Let_def)
qed

lemma record_trade_Inr:
  assumes "record_trade s p w g = Inr (s', b)"
  shows "b = (capital s + p \<le> 0)"
    and "equity_curve' s' =
           equity_curve' s @ (if b then [capital s + p, 0] else [capital s + p])"
    and "capital s' = (if b then 0 else capital s + p)"
    and "rng s' = g"
    and "gross_profit s' = gross_profit s + (if w then \<bar>p\<bar> else 0)"
    and "gross_loss s' = gross_loss s + (if w then 0 else \<bar>p\<bar>)"
  using assms by (auto simp add: record_trade_def Let_def split: if_splits)

lemma record_trade_total:
  assumes "equity_curve' s \<noteq> []" and "last (equity_curve' s) \<noteq> 0"
  shows "\<exists>s' b. record_trade s p w g = Inr (s', b)"
proof (cases "record_trade s p w g")
  case (Inl e)
  with assms show ?thesis by (simp add: record_trade_Inl)
next
  case (Inr a)
  then show ?thesis by (cases a) simp
qed

lemma next_trade_Inl:
  "next_trade cfg st s = Inl e \<longleftrightarrow> e = ZeroDivisionError \<and> initial_capital cfg = 0"
  by (auto simp add: next_trade_def Let_def split: prod.splits)

lemma next_trade_total:
  assumes "initial_capital cfg \<noteq> 0"
  shows "\<exists>p w g. next_trade cfg st s = Inr ((p, w), g)"
proof (cases "next_trade cfg st s")
  case (Inl e)
  with assms show ?thesis by (simp add: next_trade_Inl)
next
  case (Inr a)
  then show ?thesis by (cases a) auto
qed

lemma trade_step_Inr:
  assumes "trade_step cfg st s = Inr (s', b)"
  shows "\<exists>p w g. next_trade cfg st s = Inr ((p, w), g) \<and> record_trade s p w g = Inr (s', b)"
  using assms by (auto simp add: trade_step_def split: sum.splits)

lemma trade_step_eq:
  "next_trade cfg st s = Inr ((p, w), g) \<Longrightarrow> trade_step cfg st s = record_trade s p w g"
  by (simp add: trade_step_def)

lemma trade_loop_Suc_Inr:
  assumes "trade_loop (Suc n) cfg st s = Inr (s', b)"
  shows "(trade_step cfg st s = Inr (s', True) \<and> b)
       \<or> (\<exists>s1. trade_step cfg st s = Inr (s1, False) \<and> trade_loop n cfg st s1 = Inr (s', b))"
  using assms by (auto split: sum.splits if_splits)

lemma length_drawdown_loop: "length (drawdown_loop peak xs) = length xs"
  by (induction xs arbitrary: peak) (simp_all add: Let_def)

lemma final_metrics_Inr:
  assumes "final_metrics cfg s = Inr r"
  shows "equity_curve r = equity_curve' s"
    and "final_capital r = capital s"
    and "total_pnl r = capital s - initial_capital cfg"
    and "length (drawdown_curve r) = length (equity_curve' s)"
    and "profit_factor r =
           (if gross_loss s > 0 then Fin (gross_profit s / gross_loss s) else PosInf)"
  using assms
  by (auto simp add: final_metrics_def length_drawdown_loop split: list.splits)

lemma final_metrics_total:
  "equity_curve' s \<noteq> [] \<Longrightarrow> \<exists>r. final_metrics cfg s = Inr r"
  by (cases "equity_curve' s") (simp_all add: final_metrics_def)

lemma run_single_simulation_Inr:
  assumes "run_single_simulation cfg st g = Inr (r, g')"
  shows "\<exists>s b. trade_loop (nat (num_trades cfg)) cfg st (init_state cfg g) = Inr (s, b)
           \<and> final_metrics cfg s = Inr r \<and> g' = rng s"
  using assms by (auto simp add: run_single_simulation_def split: sum.splits)

section \<open>Length of the curves\<close>

lemma trade_step_curve:
  assumes "trade_step cfg st s = Inr (s', b)"
  shows "length (equity_curve' s') = length (equity_curve' s) + (if b then 2 else 1)"
    and "b \<Longrightarrow> capital s' = 0"
proof -
  from assms obtain p w g where "record_trade s p w g = Inr (s', b)"
    using trade_step_Inr by blast
  from record_trade_Inr(2,3)[OF this]
  show "length (equity_curve' s') = length (equity_curve' s) + (if b then 2 else 1)"
    and "b \<Longrightarrow> capital s' = 0"
    by simp_all
qed

lemma trade_loop_curve:
  "trade_loop n cfg st s = Inr (s', b) \<Longrightarrow>
     (if b then capital s' = 0 \<and> length (equity_curve' s') \<le> length (equity_curve' s) + n + 1
      else length (equity_curve' s') = length (equity_curve' s) + n)"
proof (induction n arbitrary: s)
  case 0
  then show ?case by auto
next
  case (Suc n)
  from trade_loop_Suc_Inr[OF Suc.prems] show ?case
  proof
    assume "trade_step cfg st s = Inr (s', True) \<and> b"
    with trade_step_curve[of cfg st s s' True] show ?thesis by simp
  next
    assume "\<exists>s1. trade_step cfg st s = Inr (s1, False) \<and> trade_loop n cfg st s1 = Inr (s', b)"
    then obtain s1 where step: "trade_step cfg st s = Inr (s1, False)"
      and rest: "trade_loop n cfg st s1 = Inr (s', b)"
      by blast
    from trade_step_curve(1)[OF step] Suc.IH[OF rest] show ?thesis
      by (simp split: if_splits)
  qed
qed

text \<open>
  C3, as the code has it. A ruined trajectory appends both the capital after the ruining
  trade and a closing 0, so its curve can have \<open>N + 2\<close> entries (when ruin comes at
  the last trade); a trajectory that is not ruined has exactly \<open>N + 1\<close>. The
  drawdown curve always has the length of the equity curve.
\<close>

theorem curve_lengths:
  assumes "run_single_simulation cfg st g = Inr (r, g')"
  shows "length (equity_curve r) \<le> nat (num_trades cfg) + 2
       \<and> length (drawdown_curve r) = length (equity_curve r)
       \<and> (final_capital r \<noteq> 0 \<longrightarrow> length (equity_curve r) = nat (num_trades cfg) + 1)"
proof -
  from run_single_simulation_Inr[OF assms] obtain s b
    where loop: "trade_loop (nat (num_trades cfg)) cfg st (init_state cfg g) = Inr (s, b)"
      and fin: "final_metrics cfg s = Inr r"
    by blast
  have start: "length (equity_curve' (init_state cfg g)) = 1"
    by (simp add: init_state_def)
  from trade_loop_curve[OF loop] start final_metrics_Inr(1,2,4)[OF fin]
  show ?thesis by (simp split: if_splits)
qed

theorem curve_lengths_witness:
  "\<exists>r g'. run_single_simulation (default_config\<lparr>num_trades := 1\<rparr>) default_stats winning_draws
       = Inr (r, g')
     \<and> length (equity_curve r) \<le> 3
     \<and> length (drawdown_curve r) = length (equity_curve r)
     \<and> final_capital r \<noteq> 0 \<and> length (equity_curve r) = 2"
proof -
  have "\<exists>r g'. run_single_simulation (default_config\<lparr>num_trades := 1\<rparr>) default_stats
      winning_draws = Inr (r, g') \<and> final_capital r \<noteq> 0"
    by (simp add: trajectory_defs example_defs)
  then obtain r g' where run: "run_single_simulation (default_config\<lparr>num_trades := 1\<rparr>)
      default_stats winning_draws = Inr (r, g')" and pos: "final_capital r \<noteq> 0"
    by blast
  from curve_lengths[OF run] pos run show ?thesis
    by (auto simp add: default_config_def)
qed

text \<open>
  The claim's bound \<open>N + 1\<close> fails for a trajectory of one trade that is ruined by
  it: the curve is the initial capital, the negative capital after the trade, and 0.
\<close>

theorem curve_length_counterexample:
  "\<exists>r g'. run_single_simulation (default_config\<lparr>num_trades := 1\<rparr>) heavy_loss_stats
       losing_draws = Inr (r, g')
     \<and> equity_curve r = [1000, - 47022 / 100, 0]
     \<and> \<not> length (equity_curve r) \<le> nat (num_trades (default_config\<lparr>num_trades := 1\<rparr>)) + 1"
  by (simp add: trajectory_defs example_defs)

section \<open>The invariant is kept\<close>

lemma running_init: "0 < initial_capital cfg \<Longrightarrow> running (init_state cfg g)"
  by (simp add: running_def init_state_def)

lemma running_capital: "running s \<Longrightarrow> 0 < capital s"
  unfolding running_def list_all_iff using last_in_set by metis

lemma record_trade_running:
  assumes run: "running s" and rt: "record_trade s p w g = Inr (s', b)"
  shows "if b then capital s' = 0 \<and> equity_curve' s' = equity_curve' s @ [capital s + p, 0]
                \<and> capital s + p \<le> 0
         else running s' \<and> equity_curve' s' = equity_curve' s @ [capital s + p]"
    and "0 \<le> gross_profit s'" and "0 \<le> gross_loss s'"
proof -
  note facts = record_trade_Inr[OF rt]
  from run have nonneg: "0 \<le> gross_profit s" "0 \<le> gross_loss s"
    and pos: "list_all (\<lambda>x. 0 < x) (equity_curve' s)"
    by (simp_all add: running_def)
  from facts(5) nonneg(1) show gp: "0 \<le> gross_profit s'" by (simp split: if_splits)
  from facts(6) nonneg(2) show gl: "0 \<le> gross_loss s'" by (simp split: if_splits)
  show "if b then capital s' = 0 \<and> equity_curve' s' = equity_curve' s @ [capital s + p, 0]
                \<and> capital s + p \<le> 0
         else running s' \<and> equity_curve' s' = equity_curve' s @ [capital s + p]"
  proof (cases b)
    case True
    with facts(1,2,3) show ?thesis by simp
  next
    case False
    with facts(1,2,3) pos gp gl show ?thesis by (simp add: running_def)
  qed
qed

lemma trade_step_running:
  assumes run: "running s" and c0: "initial_capital cfg \<noteq> 0"
  shows "\<exists>s' b. trade_step cfg st s = Inr (s', b)
           \<and> (if b then capital s' = 0
                 \<and> (\<exists>c. c \<le> 0 \<and> equity_curve' s' = equity_curve' s @ [c, 0])
               else running s' \<and> (\<exists>c. equity_curve' s' = equity_curve' s @ [c]))
           \<and> 0 \<le> gross_profit s' \<and> 0 \<le> gross_loss s'"
proof -
  from next_trade_total[OF c0] obtain p w g where nt: "next_trade cfg st s = Inr ((p, w), g)"
    by blast
  from run have "equity_curve' s \<noteq> []" and "last (equity_curve' s) \<noteq> 0"
    using running_capital[OF run] by (simp_all add: running_def)
  from record_trade_total[OF this] obtain s' b where rt: "record_trade s p w g = Inr (s', b)"
    by blast
  from record_trade_running[OF run rt] trade_step_eq[OF nt] rt show ?thesis
    by (auto split: if_splits)
qed

lemma trade_loop_running:
  assumes "running s" and "initial_capital cfg \<noteq> 0"
  shows "\<exists>s' b. trade_loop n cfg st s = Inr (s', b)
           \<and> (if b then capital s' = 0
                 \<and> (\<exists>pre c. equity_curve' s' = pre @ [c, 0] \<and> list_all (\<lambda>x. 0 < x) pre \<and> c \<le> 0)
               else running s')
           \<and> 0 \<le> gross_profit s' \<and> 0 \<le> gross_loss s'"
  using assms
proof (induction n arbitrary: s)
  case 0
  then show ?case by (auto simp add: running_def)
next
  case (Suc n)
  from trade_step_running[OF Suc.prems] obtain s1 b1
    where step: "trade_step cfg st s = Inr (s1, b1)"
      and shape: "if b1 then capital s1 = 0
                 \<and> (\<exists>c. c \<le> 0 \<and> equity_curve' s1 = equity_curve' s @ [c, 0])
               else running s1 \<and> (\<exists>c. equity_curve' s1 = equity_curve' s @ [c])"
      and nonneg: "0 \<le> gross_profit s1" "0 \<le> gross_loss s1"
    by blast
  show ?case
  proof (cases b1)
    case True
    from Suc.prems(1) have "list_all (\<lambda>x. 0 < x) (equity_curve' s)"
      by (simp add: running_def)
    with True step shape nonneg show ?thesis by auto
  next
    case False
    with shape have "running s1" by simp
    from Suc.IH[OF this Suc.prems(2)] step False show ?thesis by simp
  qed
qed


text \<open>
  C10. With a positive initial capital no division of the trajectory is by zero: the run
  returns a result (the model raises \<open>ZeroDivisionError\<close> on a zero divisor), and
  whenever the loop is about to run another trade, after any number \<open>k\<close> of trades
  without ruin, the last curve entry, which is the divisor of the next return, is
  strictly positive.
\<close>

theorem no_division_by_zero:
  assumes "0 < initial_capital cfg"
  shows "(\<exists>r g'. run_single_simulation cfg st g = Inr (r, g'))
       \<and> (\<forall>k s. trade_loop k cfg st (init_state cfg g) = Inr (s, False)
              \<longrightarrow> equity_curve' s \<noteq> [] \<and> 0 < last (equity_curve' s))"
proof
  from assms have c0: "initial_capital cfg \<noteq> 0" by simp
  note start = running_init[OF assms, of g]
  from trade_loop_running[OF start c0, of "nat (num_trades cfg)" st] obtain s b
    where loop: "trade_loop (nat (num_trades cfg)) cfg st (init_state cfg g) = Inr (s, b)"
      and shape: "if b then capital s = 0
                 \<and> (\<exists>pre c. equity_curve' s = pre @ [c, 0] \<and> list_all (\<lambda>x. 0 < x) pre \<and> c \<le> 0)
               else running s"
    by blast
  from shape have "equity_curve' s \<noteq> []"
    by (auto simp add: running_def split: if_splits)
  from final_metrics_total[OF this] obtain r where "final_metrics cfg s = Inr r" by blast
  with loop show "\<exists>r g'. run_single_simulation cfg st g = Inr (r, g')"
    by (simp add: run_single_simulation_def)
  show "\<forall>k s. trade_loop k cfg st (init_state cfg g) = Inr (s, False)
              \<longrightarrow> equity_curve' s \<noteq> [] \<and> 0 < last (equity_curve' s)"
  proof (intro allI impI)
    fix k s
    assume head: "trade_loop k cfg st (init_state cfg g) = Inr (s, False)"
    from trade_loop_running[OF start c0, of k st] head have "running s" by auto
    then show "equity_curve' s \<noteq> [] \<and> 0 < last (equity_curve' s)"
      using running_capital by (simp add: running_def)
  qed
qed

theorem no_division_by_zero_witness:
  "0 < initial_capital (default_config\<lparr>num_trades := 2\<rparr>)
   \<and> (\<exists>r g'. run_single_simulation (default_config\<lparr>num_trades := 2\<rparr>) default_stats
         winning_draws = Inr (r, g'))
   \<and> (\<exists>s. trade_loop 1 (default_config\<lparr>num_trades := 2\<rparr>) default_stats
         (init_state (default_config\<lparr>num_trades := 2\<rparr>) winning_draws) = Inr (s, False)
        \<and> equity_curve' s \<noteq> [] \<and> 0 < last (equity_curve' s))"
proof -
  have pos: "0 < initial_capital (default_config\<lparr>num_trades := 2\<rparr>)"
    by (simp add: default_config_def)
  have "\<exists>s. trade_loop 1 (default_config\<lparr>num_trades := 2\<rparr>) default_stats
         (init_state (default_config\<lparr>num_trades := 2\<rparr>) winning_draws) = Inr (s, False)"
    by (simp add: trajectory_defs example_defs)
  with no_division_by_zero[OF pos, of default_stats winning_draws] pos show ?thesis
    by blast
qed

text \<open>
  C1, as the code has it. When the first trade brings the capital to exactly 0, the
  trajectory stops there whatever the number of trades, with final capital 0; the curve
  is the initial capital, the 0 reached by the trade, and the closing 0 appended on ruin.
\<close>

theorem first_trade_ruin:
  assumes "0 < num_trades cfg"
    and "next_trade cfg st (init_state cfg g) = Inr ((trade_pnl, is_winner), g1)"
    and "initial_capital cfg + trade_pnl = 0"
  shows "\<exists>r. run_single_simulation cfg st g = Inr (r, g1)
           \<and> final_capital r = 0
           \<and> equity_curve r = [initial_capital cfg, 0, 0]"
proof -
  from assms(2) have c0: "initial_capital cfg \<noteq> 0"
    using next_trade_Inl[of cfg st "init_state cfg g" ZeroDivisionError] by auto
  let ?s0 = "init_state cfg g"
  have "equity_curve' ?s0 \<noteq> []" and "last (equity_curve' ?s0) \<noteq> 0"
    using c0 by (simp_all add: init_state_def)
  from record_trade_total[OF this] obtain s' b
    where rt: "record_trade ?s0 trade_pnl is_winner g1 = Inr (s', b)"
    by blast
  from record_trade_Inr(1,2,3,4)[OF rt] assms(3)
  have b: "b" and curve: "equity_curve' s' = [initial_capital cfg, 0, 0]"
    and cap: "capital s' = 0" and gen: "rng s' = g1"
    by (simp_all add: init_state_def)
  from assms(1) obtain n where n: "nat (num_trades cfg) = Suc n"
    by (cases "nat (num_trades cfg)") auto
  from rt b trade_step_eq[OF assms(2)]
  have "trade_loop (Suc n) cfg st ?s0 = Inr (s', True)"
    by simp
  moreover from curve obtain r where fin: "final_metrics cfg s' = Inr r"
    using final_metrics_total[of s' cfg] by auto
  ultimately have "run_single_simulation cfg st g = Inr (r, g1)"
    using n gen by (simp add: run_single_simulation_def)
  with final_metrics_Inr(1,2)[OF fin] curve cap show ?thesis
    by simp
qed


theorem first_trade_ruin_witness:
  "0 < num_trades (scenario_config 0.2\<lparr>num_trades := 5\<rparr>)
   \<and> next_trade (scenario_config 0.2\<lparr>num_trades := 5\<rparr>) heavy_loss_stats
         (init_state (scenario_config 0.2\<lparr>num_trades := 5\<rparr>) losing_draws)
       = Inr ((- 1000, False), sconst 0)
   \<and> (\<exists>r. run_single_simulation (scenario_config 0.2\<lparr>num_trades := 5\<rparr>) heavy_loss_stats
          losing_draws = Inr (r, sconst 0)
        \<and> final_capital r = 0 \<and> equity_curve r = [1000, 0, 0])"
proof -
  let ?cfg = "scenario_config 0.2\<lparr>num_trades := 5\<rparr>"
  have n: "0 < num_trades ?cfg" by (simp add: scenario_config_def)
  have nt: "next_trade ?cfg heavy_loss_stats (init_state ?cfg losing_draws)
       = Inr ((- 1000, False), sconst 0)"
    by (simp add: trajectory_defs example_defs)
  have z: "initial_capital ?cfg + (- 1000) = 0"
    by (simp add: example_defs)
  have c0: "initial_capital ?cfg = 1000"
    by (simp add: example_defs)
  from first_trade_ruin[OF n nt z] n nt c0 show ?thesis by simp
qed

text \<open>
  The curve the claim expects, without the closing 0, is not the one the code builds.
\<close>

theorem first_trade_ruin_counterexample:
  "next_trade (scenario_config 0.2\<lparr>num_trades := 2\<rparr>) heavy_loss_stats
         (init_state (scenario_config 0.2\<lparr>num_trades := 2\<rparr>) losing_draws)
       = Inr ((- 1000, False), sconst 0)
   \<and> initial_capital (scenario_config 0.2\<lparr>num_trades := 2\<rparr>) + (- 1000) = 0
   \<and> (\<exists>r g'. run_single_simulation (scenario_config 0.2\<lparr>num_trades := 2\<rparr>) heavy_loss_stats
          losing_draws = Inr (r, g')
        \<and> equity_curve r = [1000, 0, 0]
        \<and> equity_curve r \<noteq> [initial_capital (scenario_config 0.2\<lparr>num_trades := 2\<rparr>), 0])"
  by (simp add: trajectory_defs example_defs numeral_2_eq_2)

text \<open>
  C2, as the code has it. For a positive initial capital every trajectory returns a result
  with a non-negative final capital. Its curve is either strictly positive throughout, or
  it is a strictly positive part followed by the non-positive capital after the ruining
  trade and one closing 0, where it ends.
\<close>

theorem equity_curve_shape:
  assumes "0 < initial_capital cfg"
  shows "\<exists>r g'. run_single_simulation cfg st g = Inr (r, g')
           \<and> 0 \<le> final_capital r
           \<and> ((\<forall>x \<in> set (equity_curve r). 0 < x)
              \<or> (\<exists>pre c. equity_curve r = pre @ [c, 0] \<and> (\<forall>x \<in> set pre. 0 < x) \<and> c \<le> 0
                    \<and> final_capital r = 0))"
proof -
  from assms have c0: "initial_capital cfg \<noteq> 0" by simp
  from trade_loop_running[OF running_init[OF assms, of g] c0, of "nat (num_trades cfg)" st]
  obtain s b
    where loop: "trade_loop (nat (num_trades cfg)) cfg st (init_state cfg g) = Inr (s, b)"
      and shape: "if b then capital s = 0
                 \<and> (\<exists>pre c. equity_curve' s = pre @ [c, 0] \<and> list_all (\<lambda>x. 0 < x) pre \<and> c \<le> 0)
               else running s"
    by blast
  from shape have "equity_curve' s \<noteq> []"
    by (auto simp add: running_def split: if_splits)
  from final_metrics_total[OF this] obtain r where fin: "final_metrics cfg s = Inr r" by blast
  with loop have run: "run_single_simulation cfg st g = Inr (r, rng s)"
    by (simp add: run_single_simulation_def)
  note r = final_metrics_Inr(1,2)[OF fin]
  show ?thesis
  proof (cases b)
    case True
    with shape r run show ?thesis
      by (auto simp add: list_all_iff)
  next
    case False
    with shape have "running s" by simp
    with running_capital[OF this] r run show ?thesis
      by (auto simp add: running_def list_all_iff)
  qed
qed

theorem equity_curve_shape_witness:
  "0 < initial_capital (default_config\<lparr>num_trades := 1\<rparr>)
   \<and> (\<exists>r g'. run_single_simulation (default_config\<lparr>num_trades := 1\<rparr>) heavy_loss_stats
         losing_draws = Inr (r, g')
        \<and> 0 \<le> final_capital r
        \<and> (\<exists>pre c. equity_curve r = pre @ [c, 0] \<and> list_all (\<lambda>x. 0 < x) pre \<and> c \<le> 0
               \<and> final_capital r = 0))"
proof -
  let ?cfg = "default_config\<lparr>num_trades := 1\<rparr>"
  have pos: "0 < initial_capital ?cfg" by (simp add: default_config_def)
  from equity_curve_shape[OF pos, of heavy_loss_stats losing_draws] obtain r g'
    where run: "run_single_simulation ?cfg heavy_loss_stats losing_draws = Inr (r, g')"
      and cap: "0 \<le> final_capital r"
      and shape: "(\<forall>x \<in> set (equity_curve r). 0 < x)
              \<or> (\<exists>pre c. equity_curve r = pre @ [c, 0] \<and> (\<forall>x \<in> set pre. 0 < x) \<and> c \<le> 0
                    \<and> final_capital r = 0)"
    by blast
  have "\<exists>r g'. run_single_simulation ?cfg heavy_loss_stats losing_draws = Inr (r, g')
      \<and> equity_curve r = [1000, - 47022 / 100, 0]"
    by (simp add: trajectory_defs example_defs)
  with run have "equity_curve r = [1000, - 47022 / 100, 0]" by auto
  then have "\<not> (\<forall>x \<in> set (equity_curve r). 0 < x)" by simp
  with shape have "\<exists>pre c. equity_curve r = pre @ [c, 0] \<and> list_all (\<lambda>x. 0 < x) pre \<and> c \<le> 0
               \<and> final_capital r = 0"
    by (auto simp add: list_all_iff)
  with pos run cap show ?thesis by blast
qed

text \<open>
  A negative entry: the capital after the ruining trade is appended before it is clamped.
\<close>

theorem equity_curve_counterexample:
  "0 < initial_capital (default_config\<lparr>num_trades := 3\<rparr>)
   \<and> (\<exists>r g'. run_single_simulation (default_config\<lparr>num_trades := 3\<rparr>) heavy_loss_stats
         losing_draws = Inr (r, g')
        \<and> equity_curve r = [1000, - 47022 / 100, 0]
        \<and> \<not> (\<forall>x \<in> set (equity_curve r). 0 \<le> x))"
  by (simp add: trajectory_defs example_defs numeral_3_eq_3)

section \<open>The analysis of a result set\<close>

lemma np_min_total: "xs \<noteq> [] \<Longrightarrow> \<exists>m. np_min xs = Inr m"
  by (cases xs) simp_all

lemma np_max_total: "xs \<noteq> [] \<Longrightarrow> \<exists>m. np_max xs = Inr m"
  by (cases xs) simp_all

lemma distribution_total:
  assumes "xs \<noteq> []"
  shows "\<exists>d. distribution xs = Inr d \<and> d_percentiles d = percentile_table xs"
proof -
  from np_min_total[OF assms] np_max_total[OF assms]
  obtain lo hi where "np_min xs = Inr lo" "np_max xs = Inr hi" by blast
  then show ?thesis by (simp add: distribution_def)
qed

lemma distribution_Inr:
  assumes "distribution xs = Inr d"
  shows "xs \<noteq> []" and "d_percentiles d = percentile_table xs"
  using assms
  by (auto simp add: distribution_def split: sum.splits)

lemma percent_where_value:
  "xs \<noteq> [] \<Longrightarrow>
     percent_where P (map f xs) =
       Inr (real (length (filter (\<lambda>x. P (f x)) xs)) / real (length xs) * 100)"
  by (simp add: percent_where_def filter_map comp_def)

lemma analyze_results_nonempty:
  assumes "results \<noteq> []"
  shows "\<exists>a. analyze_results cfg results = Inr a
           \<and> probability_of_profit a =
               real (length (filter (\<lambda>r. 0 < total_pnl r) results)) / real (length results) * 100
           \<and> probability_of_ruin a =
               real (length (filter (\<lambda>r. final_capital r < initial_capital cfg * 0.5) results))
                 / real (length results) * 100
           \<and> a_profit_factor a =
               \<lparr> r_mean = np_mean (finite_profit_factors results),
                 r_median = np_median (finite_profit_factors results) \<rparr>
           \<and> d_percentiles (a_final_capital a) = percentile_table (map final_capital results)
           \<and> d_percentiles (a_total_pnl a) = percentile_table (map total_pnl results)
           \<and> d_percentiles (a_max_drawdown_pct a)
               = percentile_table (map max_drawdown_pct results)
           \<and> ls_percentiles (a_longest_loss_streak a)
               = percentile_table (map (\<lambda>r. real (longest_loss_streak r)) results)"
proof -
  from assms obtain fc where fc: "distribution (map final_capital results) = Inr fc"
    "d_percentiles fc = percentile_table (map final_capital results)"
    using distribution_total[of "map final_capital results"] by auto
  from assms obtain tp where tp: "distribution (map total_pnl results) = Inr tp"
    "d_percentiles tp = percentile_table (map total_pnl results)"
    using distribution_total[of "map total_pnl results"] by auto
  from assms obtain md where md: "distribution (map max_drawdown_pct results) = Inr md"
    "d_percentiles md = percentile_table (map max_drawdown_pct results)"
    using distribution_total[of "map max_drawdown_pct results"] by auto
  from assms obtain hi where hi: "np_max (map (\<lambda>r. real (longest_loss_streak r)) results) = Inr hi"
    using np_max_total[of "map (\<lambda>r. real (longest_loss_streak r)) results"] by auto
  note pp = percent_where_value[OF assms, of "\<lambda>pnl. pnl > 0" total_pnl]
  note pr = percent_where_value[OF assms, of "\<lambda>cap. cap < initial_capital cfg * 0.5" final_capital]
  show ?thesis
    unfolding analyze_results_def Let_def
    by (simp only: fc(1) tp(1) md(1) hi pp pr sum.case) (simp add: fc(2) tp(2) md(2))
qed

lemma analyze_results_Inr:
  assumes "analyze_results cfg results = Inr a"
  shows "results \<noteq> []"
proof
  assume "results = []"
  with assms show False
    by (simp add: analyze_results_def distribution_def)
qed


lemma filter_all: "(\<forall>x \<in> set xs. P x) \<Longrightarrow> filter P xs = xs"
  by (induction xs) simp_all

lemma filter_none: "(\<forall>x \<in> set xs. \<not> P x) \<Longrightarrow> filter P xs = []"
  by (induction xs) simp_all

text \<open>
  C5. On a non-empty result set the analysis is returned, the probability of profit is the
  share of results with a strictly positive total PnL and the probability of ruin the share
  of results whose final capital is below half the initial capital, both in percent. When
  every result has a positive PnL, the PnL being final capital minus initial capital as in
  every result of the simulator, and the initial capital is not negative, the two values
  are 100 and 0.
\<close>

theorem probabilities:
  assumes "results \<noteq> []"
  shows "\<exists>a. analyze_results cfg results = Inr a
           \<and> probability_of_profit a =
               real (length (filter (\<lambda>r. 0 < total_pnl r) results)) / real (length results) * 100
           \<and> probability_of_ruin a =
               real (length (filter (\<lambda>r. final_capital r < initial_capital cfg / 2) results))
                 / real (length results) * 100
           \<and> ((\<forall>r \<in> set results. 0 < total_pnl r
                    \<and> total_pnl r = final_capital r - initial_capital cfg)
                \<and> 0 \<le> initial_capital cfg
              \<longrightarrow> probability_of_profit a = 100 \<and> probability_of_ruin a = 0)"
proof -
  from analyze_results_nonempty[OF assms, of cfg] obtain a
    where a: "analyze_results cfg results = Inr a"
      and pp: "probability_of_profit a =
               real (length (filter (\<lambda>r. 0 < total_pnl r) results)) / real (length results) * 100"
      and pr: "probability_of_ruin a =
               real (length (filter (\<lambda>r. final_capital r < initial_capital cfg * 0.5) results))
                 / real (length results) * 100"
    by blast
  have half: "initial_capital cfg * 0.5 = initial_capital cfg / 2" by simp
  have "probability_of_profit a = 100 \<and> probability_of_ruin a = 0"
    if all: "\<forall>r \<in> set results. 0 < total_pnl r
                    \<and> total_pnl r = final_capital r - initial_capital cfg"
      and c0: "0 \<le> initial_capital cfg"
  proof -
    from all have "filter (\<lambda>r. 0 < total_pnl r) results = results"
      by (intro filter_all) blast
    with pp assms have profit: "probability_of_profit a = 100" by simp
    have "\<forall>r \<in> set results. \<not> final_capital r < initial_capital cfg * 0.5"
    proof
      fix r assume "r \<in> set results"
      with all have "initial_capital cfg < final_capital r" by fastforce
      with c0 show "\<not> final_capital r < initial_capital cfg * 0.5" by simp
    qed
    then have "filter (\<lambda>r. final_capital r < initial_capital cfg * 0.5) results = []"
      by (rule filter_none)
    with pr have "probability_of_ruin a = 0" by simp
    with profit show ?thesis by simp
  qed
  with a pp pr half show ?thesis by auto
qed

lemma run_single_simulation_pnl:
  assumes "run_single_simulation cfg st g = Inr (r, g')"
  shows "total_pnl r = final_capital r - initial_capital cfg"
proof -
  from run_single_simulation_Inr[OF assms] obtain s where "final_metrics cfg s = Inr r"
    by blast
  from final_metrics_Inr(2,3)[OF this] show ?thesis by simp
qed

theorem probabilities_witness:
  "\<exists>r g' a. run_single_simulation (default_config\<lparr>num_trades := 1\<rparr>) default_stats
        winning_draws = Inr (r, g')
     \<and> 0 < total_pnl r
     \<and> analyze_results (default_config\<lparr>num_trades := 1\<rparr>) [r] = Inr a
     \<and> probability_of_profit a = 100 \<and> probability_of_ruin a = 0"
proof -
  let ?cfg = "default_config\<lparr>num_trades := 1\<rparr>"
  have "\<exists>r g'. run_single_simulation ?cfg default_stats winning_draws = Inr (r, g')
      \<and> 0 < total_pnl r"
    by (simp add: trajectory_defs example_defs)
  then obtain r g' where run: "run_single_simulation ?cfg default_stats winning_draws = Inr (r, g')"
    and pos: "0 < total_pnl r"
    by blast
  note pnl = run_single_simulation_pnl[OF run]
  have c0: "0 \<le> initial_capital ?cfg" by (simp add: example_defs)
  have ne: "[r] \<noteq> []" by simp
  from probabilities[OF ne, of ?cfg] pos pnl c0 run show ?thesis
    by auto
qed

lemma trade_loop_gross_loss:
  "trade_loop n cfg st s = Inr (s', b) \<Longrightarrow> 0 \<le> gross_loss s \<Longrightarrow> 0 \<le> gross_loss s'"
proof (induction n arbitrary: s)
  case 0
  then show ?case by simp
next
  case (Suc n)
  have step: "0 \<le> gross_loss t" if "trade_step cfg st s = Inr (t, c)" for t c
  proof -
    from trade_step_Inr[OF that] obtain p w g where "record_trade s p w g = Inr (t, c)"
      by blast
    from record_trade_Inr(6)[OF this] Suc.prems(2) show ?thesis
      by (simp split: if_splits)
  qed
  from trade_loop_Suc_Inr[OF Suc.prems(1)] show ?case
  proof
    assume "trade_step cfg st s = Inr (s', True) \<and> b"
    with step show ?thesis by blast
  next
    assume "\<exists>s1. trade_step cfg st s = Inr (s1, False) \<and> trade_loop n cfg st s1 = Inr (s', b)"
    then obtain s1 where s1: "trade_step cfg st s = Inr (s1, False)"
      and rest: "trade_loop n cfg st s1 = Inr (s', b)"
      by blast
    from Suc.IH[OF rest step[OF s1]] show ?thesis .
  qed
qed

lemma finite_profit_factors_filter:
  "map Fin (finite_profit_factors results) = filter (\<lambda>f. f \<noteq> PosInf) (map profit_factor results)"
  by (induction results) (simp_all split: pyfloat.splits)

lemma finite_profit_factors_empty:
  "(\<forall>r \<in> set results. profit_factor r = PosInf) \<Longrightarrow> finite_profit_factors results = []"
  by (induction results) simp_all

text \<open>
  C6. The profit factor of a trajectory is gross profit over gross loss when the gross
  loss is positive, and it is infinite exactly when the gross loss is 0. In the analysis
  the mean and the median of the profit factor are taken over the finite profit factors
  only; when every profit factor is infinite the analysis is still returned, and both are
  NaN.
\<close>

theorem profit_factor_rule:
  "(trade_loop (nat (num_trades cfg)) cfg st (init_state cfg g) = Inr (s, broke) \<longrightarrow>
    final_metrics cfg s = Inr r \<longrightarrow>
      run_single_simulation cfg st g = Inr (r, rng s)
      \<and> profit_factor r =
          (if 0 < gross_loss s then Fin (gross_profit s / gross_loss s) else PosInf)
      \<and> (profit_factor r = PosInf \<longleftrightarrow> gross_loss s = 0))
   \<and> (results \<noteq> [] \<longrightarrow>
      (\<exists>a. analyze_results cfg results = Inr a
         \<and> map Fin (finite_profit_factors results)
             = filter (\<lambda>f. f \<noteq> PosInf) (map profit_factor results)
         \<and> r_mean (a_profit_factor a) = np_mean (finite_profit_factors results)
         \<and> r_median (a_profit_factor a) = np_median (finite_profit_factors results)
         \<and> ((\<forall>x \<in> set results. profit_factor x = PosInf) \<longrightarrow>
              r_mean (a_profit_factor a) = NaN \<and> r_median (a_profit_factor a) = NaN)))"
proof (intro conjI impI)
  assume loop: "trade_loop (nat (num_trades cfg)) cfg st (init_state cfg g) = Inr (s, broke)"
    and fin: "final_metrics cfg s = Inr r"
  from loop fin show "run_single_simulation cfg st g = Inr (r, rng s)"
    by (simp add: run_single_simulation_def)
  show pf: "profit_factor r =
          (if 0 < gross_loss s then Fin (gross_profit s / gross_loss s) else PosInf)"
    by (rule final_metrics_Inr(5)[OF fin])
  have "0 \<le> gross_loss s"
    by (rule trade_loop_gross_loss[OF loop]) (simp add: init_state_def)
  with pf show "profit_factor r = PosInf \<longleftrightarrow> gross_loss s = 0"
    by auto
next
  assume ne: "results \<noteq> []"
  from analyze_results_nonempty[OF ne, of cfg] obtain a
    where a: "analyze_results cfg results = Inr a"
      and pf: "a_profit_factor a =
               \<lparr> r_mean = np_mean (finite_profit_factors results),
                 r_median = np_median (finite_profit_factors results) \<rparr>"
    by blast
  have "r_mean (a_profit_factor a) = NaN \<and> r_median (a_profit_factor a) = NaN"
    if "\<forall>x \<in> set results. profit_factor x = PosInf"
    using finite_profit_factors_empty[OF that] pf
    by (simp add: np_mean_def np_median_def)
  with a pf finite_profit_factors_filter[of results]
  show "\<exists>a. analyze_results cfg results = Inr a
         \<and> map Fin (finite_profit_factors results)
             = filter (\<lambda>f. f \<noteq> PosInf) (map profit_factor results)
         \<and> r_mean (a_profit_factor a) = np_mean (finite_profit_factors results)
         \<and> r_median (a_profit_factor a) = np_median (finite_profit_factors results)
         \<and> ((\<forall>x \<in> set results. profit_factor x = PosInf) \<longrightarrow>
              r_mean (a_profit_factor a) = NaN \<and> r_median (a_profit_factor a) = NaN)"
    by auto
qed


theorem profit_factor_rule_witness:
  "\<exists>s broke r a.
      trade_loop (nat (num_trades (default_config\<lparr>num_trades := 1\<rparr>)))
        (default_config\<lparr>num_trades := 1\<rparr>) default_stats
        (init_state (default_config\<lparr>num_trades := 1\<rparr>) winning_draws) = Inr (s, broke)
    \<and> final_metrics (default_config\<lparr>num_trades := 1\<rparr>) s = Inr r
    \<and> gross_loss s = 0 \<and> profit_factor r = PosInf
    \<and> analyze_results (default_config\<lparr>num_trades := 1\<rparr>) [r] = Inr a
    \<and> r_mean (a_profit_factor a) = NaN \<and> r_median (a_profit_factor a) = NaN"
proof -
  let ?cfg = "default_config\<lparr>num_trades := 1\<rparr>"
  have "\<exists>s broke. trade_loop (nat (num_trades ?cfg)) ?cfg default_stats
      (init_state ?cfg winning_draws) = Inr (s, broke) \<and> gross_loss s = 0
      \<and> equity_curve' s \<noteq> []"
    by (auto simp add: trajectory_defs example_defs)
  then obtain s broke where loop: "trade_loop (nat (num_trades ?cfg)) ?cfg default_stats
      (init_state ?cfg winning_draws) = Inr (s, broke)" and zero: "gross_loss s = 0"
    and curve: "equity_curve' s \<noteq> []"
    by blast
  from final_metrics_total[OF curve] obtain r where fin: "final_metrics ?cfg s = Inr r"
    by blast
  note rule = profit_factor_rule[of ?cfg default_stats winning_draws s broke r "[r]"]
  from rule loop fin zero have inf: "profit_factor r = PosInf" by simp
  with rule obtain a where "analyze_results ?cfg [r] = Inr a"
    "r_mean (a_profit_factor a) = NaN" "r_median (a_profit_factor a) = NaN"
    by auto
  with loop fin zero inf show ?thesis by blast
qed

section \<open>Position size and the contribution of a trade\<close>

lemma next_trade_value:
  assumes "generate_confidence_level st (rng s) = (conf, g1)"
    and "simulate_single_trade st cfg conf g1 = ((pnl_per_unit, is_winner), g2)"
    and "initial_capital cfg \<noteq> 0"
  shows "next_trade cfg st s =
           Inr ((pnl_per_unit *
                  (calculate_position_size cfg
                     (if use_compounding cfg then capital s else initial_capital cfg) conf 1
                   / initial_capital cfg), is_winner), g2)"
  using assms by (simp add: next_trade_def)

lemma appended_entry:
  assumes "record_trade s p w g = Inr (s', b)"
  shows "equity_curve' s' ! length (equity_curve' s) = capital s + p"
  using record_trade_Inr(2)[OF assms] by (simp add: nth_append)

text \<open>
  C4. The position size is the smaller of base capital times the tier's Kelly fraction
  times the risk multiplier and base capital times the position cap. In the loop the
  base is the current capital under compounding and the initial capital otherwise, and
  the entry a trade appends to the curve is the capital before it plus the sampled
  per-unit PnL times position size over initial capital. Scenario A: one trajectory of
  one trade, a forced win of magnitude exactly 10, initial capital 1000, every Kelly
  fraction 0.1, no costs and a position cap that is not negative give the final capital
  \<open>1000 + 10 * (position_size / 1000)\<close> with
  \<open>position_size = min (1000 * 0.1) (1000 * max_position_pct)\<close>.
\<close>

theorem position_size_rule:
  "calculate_position_size cfg base conf risk_multiplier =
      min (base * (case conf of HIGH \<Rightarrow> high_conf_kelly cfg
                              | MEDIUM \<Rightarrow> medium_conf_kelly cfg
                              | LOW \<Rightarrow> low_conf_kelly cfg) * risk_multiplier)
          (base * max_position_pct cfg)
   \<and> (generate_confidence_level st (rng s) = (tier, g1) \<longrightarrow>
      simulate_single_trade st cfg tier g1 = ((pnl_per_unit, is_winner), g2) \<longrightarrow>
      trade_step cfg st s = Inr (s', broke) \<longrightarrow>
        equity_curve' s' ! length (equity_curve' s) =
          capital s + pnl_per_unit *
            (calculate_position_size cfg
               (if use_compounding cfg then capital s else initial_capital cfg) tier 1
             / initial_capital cfg))
   \<and> (num_simulations cfg = 1 \<longrightarrow> num_trades cfg = 1 \<longrightarrow> initial_capital cfg = 1000 \<longrightarrow>
      high_conf_kelly cfg = 0.1 \<longrightarrow> medium_conf_kelly cfg = 0.1 \<longrightarrow> low_conf_kelly cfg = 0.1 \<longrightarrow>
      slippage_pct cfg = 0 \<longrightarrow> commission_pct cfg = 0 \<longrightarrow> 0 \<le> max_position_pct cfg \<longrightarrow>
      shd (stl g) < get_win_rate_by_confidence (fst (generate_confidence_level st g)) \<longrightarrow>
      exp (ln (avg_win st) + 0.5 * shd (stl (stl g))) = 10 \<longrightarrow>
        (\<exists>a r g'. run_simulation cfg st g = Inr (a, [r], g')
           \<and> final_capital r =
               1000 + 10 * (min (1000 * 0.1) (1000 * max_position_pct cfg) / 1000)))"
proof (intro conjI impI)
  show "calculate_position_size cfg base conf risk_multiplier =
      min (base * (case conf of HIGH \<Rightarrow> high_conf_kelly cfg
                              | MEDIUM \<Rightarrow> medium_conf_kelly cfg
                              | LOW \<Rightarrow> low_conf_kelly cfg) * risk_multiplier)
          (base * max_position_pct cfg)"
    by (simp add: calculate_position_size_def)
next
  assume tier: "generate_confidence_level st (rng s) = (tier, g1)"
    and trade: "simulate_single_trade st cfg tier g1 = ((pnl_per_unit, is_winner), g2)"
    and step: "trade_step cfg st s = Inr (s', broke)"
  from step have c0: "initial_capital cfg \<noteq> 0"
    using next_trade_Inl[of cfg st s ZeroDivisionError]
    by (auto simp add: trade_step_def split: sum.splits)
  note nt = next_trade_value[OF tier trade c0]
  from step trade_step_eq[OF nt] appended_entry
  show "equity_curve' s' ! length (equity_curve' s) =
          capital s + pnl_per_unit *
            (calculate_position_size cfg
               (if use_compounding cfg then capital s else initial_capital cfg) tier 1
             / initial_capital cfg)"
    by simp
next
  assume m: "num_simulations cfg = 1" and n: "num_trades cfg = 1"
    and c0: "initial_capital cfg = 1000"
    and kelly: "high_conf_kelly cfg = 0.1" "medium_conf_kelly cfg = 0.1"
      "low_conf_kelly cfg = 0.1"
    and costs: "slippage_pct cfg = 0" "commission_pct cfg = 0"
    and cap: "0 \<le> max_position_pct cfg"
    and win: "shd (stl g) < get_win_rate_by_confidence (fst (generate_confidence_level st g))"
    and magnitude: "exp (ln (avg_win st) + 0.5 * shd (stl (stl g))) = 10"
  let ?s0 = "init_state cfg g"
  let ?tier = "fst (generate_confidence_level st g)"
  let ?size = "min (1000 * 0.1) (1000 * max_position_pct cfg)"
  have tier: "generate_confidence_level st (rng ?s0) = (?tier, stl g)"
    by (simp add: generate_confidence_level_def np_random_def init_state_def)
  have trade: "simulate_single_trade st cfg ?tier (stl g) = ((10, True), stl (stl (stl g)))"
    using win magnitude costs
    by (simp add: simulate_single_trade_def np_random_def np_lognormal_def)
  have size: "calculate_position_size cfg 1000 ?tier 1 = ?size"
    using kelly by (cases ?tier) (simp_all add: calculate_position_size_def)
  have "next_trade cfg st ?s0 = Inr ((10 * (?size / 1000), True), stl (stl (stl g)))"
    using next_trade_value[OF tier trade] c0 size by (simp add: init_state_def)
  from trade_step_eq[OF this]
  have step: "trade_step cfg st ?s0 = record_trade ?s0 (10 * (?size / 1000)) True (stl (stl (stl g)))" .
  have "equity_curve' ?s0 \<noteq> []" and "last (equity_curve' ?s0) \<noteq> 0"
    using c0 by (simp_all add: init_state_def)
  from record_trade_total[OF this] obtain s' b
    where rt: "record_trade ?s0 (10 * (?size / 1000)) True (stl (stl (stl g))) = Inr (s', b)"
    by blast
  have "0 \<le> ?size" using cap by simp
  then have up: "0 < 1000 + 10 * (?size / 1000)" by simp
  from record_trade_Inr(1,2,3)[OF rt] up c0
  have nb: "\<not> b" and cv: "capital s' = 1000 + 10 * (?size / 1000)"
    and curve: "equity_curve' s' \<noteq> []"
    by (simp_all add: init_state_def)
  from final_metrics_total[OF curve] obtain r where fin: "final_metrics cfg s' = Inr r"
    by blast
  from step rt nb have "trade_loop (Suc 0) cfg st ?s0 = Inr (s', False)"
    by simp
  with fin n have "run_single_simulation cfg st g = Inr (r, rng s')"
    by (simp add: run_single_simulation_def)
  with m have runs: "run_trajectories (nat (num_simulations cfg)) cfg st [] g = Inr ([r], rng s')"
    by simp
  from analyze_results_nonempty[of "[r]" cfg] obtain a where "analyze_results cfg [r] = Inr a"
    by auto
  with runs have "run_simulation cfg st g = Inr (a, [r], rng s')"
    by (simp add: run_simulation_def)
  with final_metrics_Inr(2)[OF fin] cv
  show "\<exists>a r g'. run_simulation cfg st g = Inr (a, [r], g')
           \<and> final_capital r = 1000 + 10 * (min (1000 * 0.1) (1000 * max_position_pct cfg) / 1000)"
    by auto
qed

theorem position_size_rule_witness:
  "(\<exists>s' broke.
      trade_step (scenario_config 0.2) (default_stats\<lparr>avg_win := 10\<rparr>)
        (init_state (scenario_config 0.2) winning_draws) = Inr (s', broke)
      \<and> equity_curve' s' ! 1 = 1001)
   \<and> (\<exists>a r g'. run_simulation (scenario_config 0.2) (default_stats\<lparr>avg_win := 10\<rparr>)
         winning_draws = Inr (a, [r], g')
        \<and> final_capital r = 1000 + 10 * (min (1000 * 0.1) (1000 * 0.2) / 1000)
        \<and> final_capital r = 1001)"
proof -
  let ?cfg = "scenario_config 0.2"
  let ?st = "default_stats\<lparr>avg_win := 10\<rparr>"
  let ?s0 = "init_state ?cfg winning_draws"
  note rule = position_size_rule[of ?cfg _ _ _ ?st ?s0 HIGH "stl winning_draws" 10 True
      "sconst 0" _ _ winning_draws]
  have tier: "generate_confidence_level ?st (rng ?s0) = (HIGH, stl winning_draws)"
    by (simp add: trajectory_defs example_defs)
  have trade: "simulate_single_trade ?st ?cfg HIGH (stl winning_draws) = ((10, True), sconst 0)"
    by (simp add: trajectory_defs example_defs)
  have step: "\<exists>s' broke. trade_step ?cfg ?st ?s0 = Inr (s', broke)"
    by (auto simp add: trajectory_defs example_defs)
  then obtain s' broke where s': "trade_step ?cfg ?st ?s0 = Inr (s', broke)"
    by blast
  from rule[of _ _ _ s' broke] tier trade s'
  have "equity_curve' s' ! length (equity_curve' ?s0) =
          capital ?s0 + 10 *
            (calculate_position_size ?cfg
               (if use_compounding ?cfg then capital ?s0 else initial_capital ?cfg) HIGH 1
             / initial_capital ?cfg)"
    by blast
  then have entry: "equity_curve' s' ! 1 = 1001"
    by (simp add: trajectory_defs example_defs)
  have "num_simulations ?cfg = 1" "num_trades ?cfg = 1" "initial_capital ?cfg = 1000"
    "high_conf_kelly ?cfg = 0.1"
    "medium_conf_kelly ?cfg = 0.1" "low_conf_kelly ?cfg = 0.1" "slippage_pct ?cfg = 0"
    "commission_pct ?cfg = 0" "0 \<le> max_position_pct ?cfg" "max_position_pct ?cfg = 0.2"
    "shd (stl winning_draws)
       < get_win_rate_by_confidence (fst (generate_confidence_level ?st winning_draws))"
    "exp (ln (avg_win ?st) + 0.5 * shd (stl (stl winning_draws))) = 10"
    by (simp_all add: trajectory_defs example_defs)
  with rule have "\<exists>a r g'. run_simulation ?cfg ?st winning_draws = Inr (a, [r], g')
      \<and> final_capital r = 1000 + 10 * (min (1000 * 0.1) (1000 * 0.2) / 1000)"
    by simp
  with s' entry show ?thesis by auto
qed


section \<open>Percentiles\<close>

lemma interpolation_bounds:
  fixes lo hi gamma :: real
  assumes "lo \<le> hi" and "0 \<le> gamma" and "gamma \<le> 1"
  shows "lo \<le> lo + (hi - lo) * gamma" and "lo + (hi - lo) * gamma \<le> hi"
proof -
  from assms have d: "0 \<le> hi - lo" by simp
  from mult_nonneg_nonneg[OF d assms(2)] show "lo \<le> lo + (hi - lo) * gamma" by simp
  from mult_left_le[OF assms(3) d] show "lo + (hi - lo) * gamma \<le> hi" by simp
qed

lemma linear_interpolation_mono:
  assumes srt: "sorted a" and ne: "a \<noteq> []"
    and h1: "0 \<le> h1" and le: "h1 \<le> h2" and h2: "h2 \<le> real (length a - 1)"
  shows "linear_interpolation a h1 \<le> linear_interpolation a h2"
proof -
  define n where "n = length a"
  define lo1 where "lo1 = nat \<lfloor>h1\<rfloor>"
  define lo2 where "lo2 = nat \<lfloor>h2\<rfloor>"
  define hi1 where "hi1 = min (lo1 + 1) (n - 1)"
  define hi2 where "hi2 = min (lo2 + 1) (n - 1)"
  define g1 where "g1 = h1 - real lo1"
  define g2 where "g2 = h2 - real lo2"
  from ne have n: "0 < n" by (simp add: n_def)
  from h1 le have h2pos: "0 \<le> h2" by simp
  have r1: "real lo1 = of_int \<lfloor>h1\<rfloor>" using h1 by (simp add: lo1_def)
  have r2: "real lo2 = of_int \<lfloor>h2\<rfloor>" using h2pos by (simp add: lo2_def)
  have g1: "0 \<le> g1" "g1 \<le> 1" unfolding g1_def r1 by linarith+
  have g2: "0 \<le> g2" "g2 \<le> 1" unfolding g2_def r2 by linarith+
  have lo12: "lo1 \<le> lo2" unfolding lo1_def lo2_def
    by (intro nat_mono floor_mono le)
  have "\<lfloor>h2\<rfloor> \<le> int (n - 1)"
    using h2 unfolding n_def by (simp add: floor_le_iff)
  then have lo2n: "lo2 \<le> n - 1" unfolding lo2_def by simp
  with lo12 have lo1n: "lo1 \<le> n - 1" by simp
  have idx1: "lo1 \<le> hi1" "hi1 < n" using lo1n n by (simp_all add: hi1_def)
  have idx2: "lo2 \<le> hi2" "hi2 < n" using lo2n n by (simp_all add: hi2_def)
  have a1: "a ! lo1 \<le> a ! hi1"
    using sorted_nth_mono[OF srt idx1(1)] idx1(2) by (simp add: n_def)
  have a2: "a ! lo2 \<le> a ! hi2"
    using sorted_nth_mono[OF srt idx2(1)] idx2(2) by (simp add: n_def)
  have v1: "linear_interpolation a h1 = a ! lo1 + (a ! hi1 - a ! lo1) * g1"
    by (simp add: linear_interpolation_def Let_def lo1_def hi1_def g1_def n_def)
  have v2: "linear_interpolation a h2 = a ! lo2 + (a ! hi2 - a ! lo2) * g2"
    by (simp add: linear_interpolation_def Let_def lo2_def hi2_def g2_def n_def)
  show ?thesis
  proof (cases "lo1 = lo2")
    case True
    then have same: "hi1 = hi2" by (simp add: hi1_def hi2_def)
    from True le have "g1 \<le> g2" by (simp add: g1_def g2_def)
    moreover from a2 have "0 \<le> a ! hi2 - a ! lo2" by simp
    ultimately have "(a ! hi2 - a ! lo2) * g1 \<le> (a ! hi2 - a ! lo2) * g2"
      by (rule mult_left_mono)
    with True same show ?thesis by (simp add: v1 v2)
  next
    case False
    with lo12 have "hi1 \<le> lo2" by (simp add: hi1_def)
    moreover from lo2n n have "lo2 < n" by simp
    ultimately have mid: "a ! hi1 \<le> a ! lo2"
      using sorted_nth_mono[OF srt, of hi1 lo2] by (simp add: n_def)
    from interpolation_bounds(2)[OF a1 g1] interpolation_bounds(1)[OF a2 g2] mid
    show ?thesis by (simp add: v1 v2)
  qed
qed

lemma np_percentile_mono:
  assumes "xs \<noteq> []" and "0 \<le> p" and "p \<le> q" and "q \<le> 100"
  shows "np_le (np_percentile xs p) (np_percentile xs q)"
proof -
  let ?a = "sort xs"
  let ?m = "real (length ?a - 1)"
  have srt: "sorted ?a" by simp
  from assms(1) have ne: "?a \<noteq> []" by (metis length_sort length_0_conv)
  have m: "0 \<le> ?m" by simp
  have lo: "0 \<le> p / 100 * ?m" using assms(2) by simp
  have mid: "p / 100 * ?m \<le> q / 100 * ?m"
    using assms(3) m by (intro mult_right_mono) simp_all
  have "q / 100 * ?m \<le> 1 * ?m"
    using assms(4) m by (intro mult_right_mono) simp_all
  then have hi: "q / 100 * ?m \<le> real (length ?a - 1)" by simp
  from linear_interpolation_mono[OF srt ne lo mid hi] assms(1)
  show ?thesis by (simp add: np_percentile_def Let_def)
qed

lemma percentile_table_mono:
  assumes "xs \<noteq> []" and "(p, v) \<in> set (percentile_table xs)"
    and "(q, w) \<in> set (percentile_table xs)" and "p \<le> q"
  shows "np_le v w"
proof -
  from assms(2) have v: "v = np_percentile xs (real p)"
    by (auto simp add: percentile_table_def)
  from assms(3) have w: "w = np_percentile xs (real q)" and "q \<in> set percentiles"
    by (auto simp add: percentile_table_def)
  then have "q \<le> 100" by (auto simp add: percentiles_def)
  with assms(4) show ?thesis
    unfolding v w by (intro np_percentile_mono[OF assms(1)]) simp_all
qed

text \<open>
  C9. In every analysis that is returned, each of the four percentile dictionaries has the
  keys 1, 5, 10, 25, 50, 75, 90, 95, 99, and its values do not decrease with the key: for
  keys \<open>p \<le> q\<close> the value at \<open>p\<close> is at most the value at \<open>q\<close>
  (and neither is NaN).
\<close>

theorem percentiles_monotone:
  assumes "analyze_results cfg results = Inr a"
    and "table \<in> set (percentile_tables a)"
    and "(p, v) \<in> set table" and "(q, w) \<in> set table" and "p \<le> q"
  shows "map fst table = [1, 5, 10, 25, 50, 75, 90, 95, 99] \<and> np_le v w"
proof -
  note ne = analyze_results_Inr[OF assms(1)]
  from analyze_results_nonempty[OF ne, of cfg] assms(1)
  have tables: "d_percentiles (a_final_capital a) = percentile_table (map final_capital results)"
    "d_percentiles (a_total_pnl a) = percentile_table (map total_pnl results)"
    "d_percentiles (a_max_drawdown_pct a) = percentile_table (map max_drawdown_pct results)"
    "ls_percentiles (a_longest_loss_streak a)
       = percentile_table (map (\<lambda>r. real (longest_loss_streak r)) results)"
    by auto
  from assms(2) tables obtain xs where xs: "xs \<noteq> []" and table: "table = percentile_table xs"
    using ne by (auto simp add: percentile_tables_def)
  have "map fst (percentile_table xs) = [1, 5, 10, 25, 50, 75, 90, 95, 99]"
    by (simp add: percentile_table_def percentiles_def)
  with percentile_table_mono[OF xs] assms(3,4,5) table show ?thesis by blast
qed

theorem percentiles_monotone_witness:
  "\<exists>results g' a.
      run_trajectories 2 (default_config\<lparr>num_trades := 1\<rparr>) default_stats [] mixed_draws
        = Inr (results, g')
    \<and> analyze_results (default_config\<lparr>num_trades := 1\<rparr>) results = Inr a
    \<and> d_percentiles (a_final_capital a) \<in> set (percentile_tables a)
    \<and> (\<exists>v w. (5, v) \<in> set (d_percentiles (a_final_capital a))
             \<and> (95, w) \<in> set (d_percentiles (a_final_capital a))
             \<and> np_le v w)"
proof -
  let ?cfg = "default_config\<lparr>num_trades := 1\<rparr>"
  have "\<exists>results g'. run_trajectories 2 ?cfg default_stats [] mixed_draws = Inr (results, g')
      \<and> results \<noteq> []"
    by (simp add: numeral_2_eq_2 trajectory_defs example_defs)
  then obtain results g'
    where run: "run_trajectories 2 ?cfg default_stats [] mixed_draws = Inr (results, g')"
      and ne: "results \<noteq> []"
    by blast
  from analyze_results_nonempty[OF ne, of ?cfg] obtain a
    where a: "analyze_results ?cfg results = Inr a"
      and table: "d_percentiles (a_final_capital a) = percentile_table (map final_capital results)"
    by blast
  let ?table = "d_percentiles (a_final_capital a)"
  let ?v = "np_percentile (map final_capital results) 5"
  let ?w = "np_percentile (map final_capital results) 95"
  have mem: "?table \<in> set (percentile_tables a)"
    by (simp add: percentile_tables_def)
  have v: "(5, ?v) \<in> set ?table" and w: "(95, ?w) \<in> set ?table"
    by (simp_all add: table percentile_table_def percentiles_def)
  from percentiles_monotone[OF a mem v w] have "np_le ?v ?w" by simp
  with run a mem v w show ?thesis by blast
qed


section \<open>Gross profit and gross loss\<close>

lemma sum_cons [simp]:
  "winner_pnl_sum ((p, w) # ts) = (if w then \<bar>p\<bar> else 0) + winner_pnl_sum ts"
  "loser_pnl_sum ((p, w) # ts) = (if w then 0 else \<bar>p\<bar>) + loser_pnl_sum ts"
  "winner_pnl_sum [] = 0" "loser_pnl_sum [] = 0"
  by (simp_all add: winner_pnl_sum_def loser_pnl_sum_def)

lemma trade_loop_gross_sums:
  "trade_loop n cfg st s = Inr (s', b) \<Longrightarrow>
     gross_profit s' = gross_profit s + winner_pnl_sum (executed_trades n cfg st s)
     \<and> gross_loss s' = gross_loss s + loser_pnl_sum (executed_trades n cfg st s)"
proof (induction n arbitrary: s)
  case 0
  then show ?case by simp
next
  case (Suc n)
  from trade_loop_Suc_Inr[OF Suc.prems] show ?case
  proof
    assume "trade_step cfg st s = Inr (s', True) \<and> b"
    then have step: "trade_step cfg st s = Inr (s', True)" by simp
    from trade_step_Inr[OF step] obtain p w g
      where nt: "next_trade cfg st s = Inr ((p, w), g)"
        and rt: "record_trade s p w g = Inr (s', True)"
      by blast
    from record_trade_Inr(5,6)[OF rt] nt rt show ?thesis by simp
  next
    assume "\<exists>s1. trade_step cfg st s = Inr (s1, False) \<and> trade_loop n cfg st s1 = Inr (s', b)"
    then obtain s1 where step: "trade_step cfg st s = Inr (s1, False)"
      and rest: "trade_loop n cfg st s1 = Inr (s', b)"
      by blast
    from trade_step_Inr[OF step] obtain p w g
      where nt: "next_trade cfg st s = Inr ((p, w), g)"
        and rt: "record_trade s p w g = Inr (s1, False)"
      by blast
    from record_trade_Inr(5,6)[OF rt] Suc.IH[OF rest] nt rt show ?thesis by simp
  qed
qed

lemma calculate_position_size_nonneg:
  assumes "sign_preserving cfg" and "0 \<le> base"
  shows "0 \<le> calculate_position_size cfg base conf 1"
  using assms
  by (cases conf) (simp_all add: calculate_position_size_def sign_preserving_def)

lemma simulate_single_trade_sign:
  assumes ok: "sign_preserving cfg"
    and tr: "simulate_single_trade st cfg conf g = ((pnl, w), g')"
  shows "if w then 0 \<le> pnl else pnl \<le> 0"
proof (cases w)
  case True
  define x where "x = exp (ln (avg_win st) + 0.5 * shd (stl g))"
  have x: "0 < x" by (simp add: x_def)
  from tr True have "pnl = x - \<bar>x\<bar> * slippage_pct cfg - \<bar>x\<bar> * commission_pct cfg * 2"
    by (auto simp add: simulate_single_trade_def np_random_def np_lognormal_def x_def Let_def
        split: if_splits)
  with x have "pnl = x * (1 - (slippage_pct cfg + 2 * commission_pct cfg))"
    by (simp add: algebra_simps)
  moreover from ok have "0 \<le> 1 - (slippage_pct cfg + 2 * commission_pct cfg)"
    by (simp add: sign_preserving_def)
  ultimately show ?thesis using x True by simp
next
  case False
  define x where "x = exp (ln (avg_loss st) + 0.4 * shd (stl g))"
  have x: "0 < x" by (simp add: x_def)
  from tr False have "pnl = - x - \<bar>- x\<bar> * slippage_pct cfg - \<bar>- x\<bar> * commission_pct cfg * 2"
    by (auto simp add: simulate_single_trade_def np_random_def np_lognormal_def x_def Let_def
        split: if_splits)
  with x have "pnl = - (x * (1 + (slippage_pct cfg + 2 * commission_pct cfg)))"
    by (simp add: algebra_simps)
  moreover from ok have "0 \<le> 1 + (slippage_pct cfg + 2 * commission_pct cfg)"
    by (simp add: sign_preserving_def)
  ultimately show ?thesis using x False by simp
qed

lemma next_trade_sign:
  assumes ok: "sign_preserving cfg" and cap: "0 < capital s"
    and nt: "next_trade cfg st s = Inr ((p, w), g)"
  shows "if w then 0 \<le> p else p \<le> 0"
proof -
  obtain conf g1 where conf: "generate_confidence_level st (rng s) = (conf, g1)"
    by (cases "generate_confidence_level st (rng s)")
  obtain ppu w' g2 where tr: "simulate_single_trade st cfg conf g1 = ((ppu, w'), g2)"
    by (cases "simulate_single_trade st cfg conf g1") auto
  from ok have c0: "0 < initial_capital cfg" by (simp add: sign_preserving_def)
  define base where "base = (if use_compounding cfg then capital s else initial_capital cfg)"
  from cap c0 have "0 \<le> base" by (simp add: base_def)
  define f where "f = calculate_position_size cfg base conf 1 / initial_capital cfg"
  from calculate_position_size_nonneg[OF ok \<open>0 \<le> base\<close>, of conf] c0
  have frac: "0 \<le> f"
    by (simp add: f_def)
  from next_trade_value[OF conf tr] c0 nt
  have p: "p = ppu * f" and w: "w = w'"
    by (simp_all add: base_def f_def)
  show ?thesis
  proof (cases w)
    case True
    with simulate_single_trade_sign[OF ok tr] w have "0 \<le> ppu" by simp
    with frac True show ?thesis unfolding p by simp
  next
    case False
    with simulate_single_trade_sign[OF ok tr] w have "ppu \<le> 0" by simp
    with frac False show ?thesis unfolding p by (simp add: mult_nonpos_nonneg)
  qed
qed

lemma executed_trades_sign:
  assumes ok: "sign_preserving cfg"
  shows "running s \<Longrightarrow> list_all (\<lambda>t. if snd t then 0 \<le> fst t else fst t \<le> 0)
           (executed_trades n cfg st s)"
proof (induction n arbitrary: s)
  case 0
  then show ?case by simp
next
  case (Suc n)
  from ok have c0: "initial_capital cfg \<noteq> 0" by (simp add: sign_preserving_def)
  from next_trade_total[OF c0] obtain p w g where nt: "next_trade cfg st s = Inr ((p, w), g)"
    by blast
  note sign = next_trade_sign[OF ok running_capital[OF Suc.prems] nt]
  show ?case
  proof (cases "record_trade s p w g")
    case (Inl e)
    with nt show ?thesis by simp
  next
    case (Inr res)
    obtain s' b where res: "res = (s', b)" by (cases res)
    from record_trade_running(1)[OF Suc.prems Inr[unfolded res]]
    have "\<not> b \<Longrightarrow> running s'" by (simp split: if_splits)
    from Suc.IH[OF this] nt Inr res sign show ?thesis by simp
  qed
qed

lemma sign_sums:
  assumes "list_all (\<lambda>t. if snd t then 0 \<le> fst t else fst t \<le> 0) trades"
  shows "winner_pnl_sum trades = positive_pnl_sum (map fst trades)
       \<and> loser_pnl_sum trades = negative_pnl_sum (map fst trades)"
  using assms
proof (induction trades)
  case Nil
  then show ?case by (simp add: positive_pnl_sum_def negative_pnl_sum_def)
next
  case (Cons t trades)
  obtain p w where t: "t = (p, w)" by (cases t)
  from Cons.prems have "list_all (\<lambda>t. if snd t then 0 \<le> fst t else fst t \<le> 0) trades"
    and sign: "if w then 0 \<le> p else p \<le> 0"
    by (auto simp add: t split: if_splits)
  from Cons.IH[OF this(1)] sign show ?case
    by (auto simp add: t positive_pnl_sum_def negative_pnl_sum_def split: if_splits)
qed

text \<open>
  C7, as the code has it. Gross profit is the sum of the absolute PnLs of the executed
  trades that were drawn as winners, gross loss that of the trades drawn as losers: the
  code classifies by the win flag. For a positive initial capital, costs that are not
  negative with slippage plus twice the commission at most 1, and Kelly fractions and
  position cap that are not negative, this is the classification by sign: gross profit is
  the sum of the positive trade PnLs and gross loss the sum of the absolute values of the
  negative ones.
\<close>

theorem gross_sums:
  assumes "trade_loop n cfg st (init_state cfg g) = Inr (s, broke)"
  shows "gross_profit s = winner_pnl_sum (executed_trades n cfg st (init_state cfg g))
       \<and> gross_loss s = loser_pnl_sum (executed_trades n cfg st (init_state cfg g))
       \<and> (sign_preserving cfg \<longrightarrow>
            gross_profit s
              = positive_pnl_sum (map fst (executed_trades n cfg st (init_state cfg g)))
          \<and> gross_loss s
              = negative_pnl_sum (map fst (executed_trades n cfg st (init_state cfg g))))"
proof -
  let ?trades = "executed_trades n cfg st (init_state cfg g)"
  from trade_loop_gross_sums[OF assms]
  have flags: "gross_profit s = winner_pnl_sum ?trades" "gross_loss s = loser_pnl_sum ?trades"
    by (simp_all add: init_state_def)
  have "winner_pnl_sum ?trades = positive_pnl_sum (map fst ?trades)
       \<and> loser_pnl_sum ?trades = negative_pnl_sum (map fst ?trades)"
    if ok: "sign_preserving cfg"
  proof -
    from ok have "0 < initial_capital cfg" by (simp add: sign_preserving_def)
    from executed_trades_sign[OF ok running_init[OF this]] show ?thesis
      by (rule sign_sums)
  qed
  with flags show ?thesis by simp
qed

theorem gross_sums_witness:
  "\<exists>s broke.
      trade_loop 2 (default_config\<lparr>num_trades := 2\<rparr>) default_stats
        (init_state (default_config\<lparr>num_trades := 2\<rparr>) mixed_draws) = Inr (s, broke)
    \<and> sign_preserving (default_config\<lparr>num_trades := 2\<rparr>)
    \<and> gross_profit s
        = positive_pnl_sum (map fst (executed_trades 2 (default_config\<lparr>num_trades := 2\<rparr>)
            default_stats (init_state (default_config\<lparr>num_trades := 2\<rparr>) mixed_draws)))
    \<and> gross_loss s
        = negative_pnl_sum (map fst (executed_trades 2 (default_config\<lparr>num_trades := 2\<rparr>)
            default_stats (init_state (default_config\<lparr>num_trades := 2\<rparr>) mixed_draws)))
    \<and> 0 < gross_profit s \<and> 0 < gross_loss s"
proof -
  let ?cfg = "default_config\<lparr>num_trades := 2\<rparr>"
  have "\<exists>s broke. trade_loop 2 ?cfg default_stats (init_state ?cfg mixed_draws) = Inr (s, broke)
      \<and> 0 < gross_profit s \<and> 0 < gross_loss s"
    by (auto simp add: numeral_2_eq_2 trajectory_defs example_defs)
  then obtain s broke
    where loop: "trade_loop 2 ?cfg default_stats (init_state ?cfg mixed_draws) = Inr (s, broke)"
      and pos: "0 < gross_profit s" "0 < gross_loss s"
    by blast
  have ok: "sign_preserving ?cfg"
    by (simp add: sign_preserving_def example_defs)
  from gross_sums[OF loop] ok loop pos show ?thesis by blast
qed

text \<open>
  With a slippage rate of 1 a winning draw has a negative PnL after costs, and its
  absolute value is added to the gross profit.
\<close>

theorem gross_sums_counterexample:
  "\<exists>s broke.
      trade_loop 1 (default_config\<lparr>num_trades := 1, slippage_pct := 1\<rparr>) default_stats
        (init_state (default_config\<lparr>num_trades := 1, slippage_pct := 1\<rparr>) winning_draws)
        = Inr (s, broke)
    \<and> executed_trades 1 (default_config\<lparr>num_trades := 1, slippage_pct := 1\<rparr>) default_stats
        (init_state (default_config\<lparr>num_trades := 1, slippage_pct := 1\<rparr>) winning_draws)
        = [(- 200896 / 100000000, True)]
    \<and> gross_profit s = 200896 / 100000000
    \<and> positive_pnl_sum [- 200896 / 100000000] = 0
    \<and> gross_profit s \<noteq> positive_pnl_sum (map fst
          (executed_trades 1 (default_config\<lparr>num_trades := 1, slippage_pct := 1\<rparr>)
             default_stats
             (init_state (default_config\<lparr>num_trades := 1, slippage_pct := 1\<rparr>)
                winning_draws)))"
  by (auto simp add: trajectory_defs example_defs positive_pnl_sum_def)

section \<open>Runs and the generator\<close>

lemmas analysis_defs =
  run_simulation_def analyze_results_def distribution_def percent_where_def

lemma stake_agree_le:
  assumes "stake n g = stake n h" and "m \<le> n"
  shows "stake m g = stake m h"
proof -
  from assms(1) have "take m (stake n g) = take m (stake n h)" by simp
  with assms(2) show ?thesis by (simp add: take_stake min_def)
qed

lemma stake_agree_sdrop:
  assumes "stake (m + n) g = stake (m + n) h"
  shows "stake n (sdrop m g) = stake n (sdrop m h)"
proof -
  from assms have "drop m (stake (m + n) g) = drop m (stake (m + n) h)" by simp
  then show ?thesis by (simp add: drop_stake)
qed

lemma stake_3: "stake 3 g = [shd g, shd (stl g), shd (stl (stl g))]"
  by (simp add: numeral_3_eq_3)

lemma sdrop_3: "sdrop 3 g = stl (stl (stl g))"
  by (simp add: numeral_3_eq_3)

lemma next_trade_rng:
  assumes "stake 3 g = stake 3 (rng s)"
  shows "next_trade cfg st (s\<lparr>rng := g\<rparr>) =
           map_sum id (\<lambda>(t, g'). (t, sdrop 3 g)) (next_trade cfg st s)"
    and "next_trade cfg st s = Inr (t, g') \<Longrightarrow> g' = sdrop 3 (rng s)"
  using assms
  by (auto simp add: stake_3 sdrop_3 next_trade_def generate_confidence_level_def
      simulate_single_trade_def np_random_def np_lognormal_def Let_def split: if_splits)

lemma record_trade_rng:
  "record_trade (s\<lparr>rng := g0\<rparr>) p w g = record_trade s p w g"
  by (simp add: record_trade_def Let_def)

lemma record_trade_generator:
  "record_trade s p w g2 =
     map_sum id (\<lambda>(s', b). (s'\<lparr>rng := g2\<rparr>, b)) (record_trade s p w g1)"
  by (simp add: record_trade_def Let_def)

lemma trade_step_rng:
  assumes "stake 3 g = stake 3 (rng s)"
  shows "trade_step cfg st (s\<lparr>rng := g\<rparr>) =
           map_sum id (\<lambda>(s', b). (s'\<lparr>rng := sdrop 3 g\<rparr>, b)) (trade_step cfg st s)"
    and "trade_step cfg st s = Inr (s', b) \<Longrightarrow> rng s' = sdrop 3 (rng s)"
proof -
  note nt = next_trade_rng[OF assms, of cfg st]
  show "trade_step cfg st (s\<lparr>rng := g\<rparr>) =
           map_sum id (\<lambda>(s', b). (s'\<lparr>rng := sdrop 3 g\<rparr>, b)) (trade_step cfg st s)"
  proof (cases "next_trade cfg st s")
    case (Inl e)
    with nt(1) show ?thesis by (simp add: trade_step_def)
  next
    case (Inr res)
    obtain p w g' where res: "res = ((p, w), g')" by (cases res) auto
    from Inr res nt(1) have "next_trade cfg st (s\<lparr>rng := g\<rparr>) = Inr ((p, w), sdrop 3 g)"
      by simp
    with Inr res record_trade_generator[of s p w "sdrop 3 g" g'] show ?thesis
      by (simp add: trade_step_def record_trade_rng)
  qed
  show "rng s' = sdrop 3 (rng s)" if step: "trade_step cfg st s = Inr (s', b)"
  proof -
    from trade_step_Inr[OF step] obtain p w g'
      where n: "next_trade cfg st s = Inr ((p, w), g')"
        and r: "record_trade s p w g' = Inr (s', b)"
      by blast
    from nt(2)[OF n] record_trade_Inr(4)[OF r] show ?thesis by simp
  qed
qed

lemma trade_loop_Suc_Inl:
  assumes "trade_loop (Suc n) cfg st s = Inl e"
  shows "trade_step cfg st s = Inl e
       \<or> (\<exists>s1. trade_step cfg st s = Inr (s1, False) \<and> trade_loop n cfg st s1 = Inl e)"
  using assms by (auto split: sum.splits if_splits)

lemma trade_loop_Suc_unfold:
  "trade_step cfg st s = Inl e \<Longrightarrow> trade_loop (Suc n) cfg st s = Inl e"
  "trade_step cfg st s = Inr (s1, True) \<Longrightarrow> trade_loop (Suc n) cfg st s = Inr (s1, True)"
  "trade_step cfg st s = Inr (s1, False) \<Longrightarrow>
     trade_loop (Suc n) cfg st s = trade_loop n cfg st s1"
  by simp_all

lemma trade_loop_rng:
  assumes "stake (3 * n) g = stake (3 * n) (rng s)"
  shows "(\<forall>e. trade_loop n cfg st s = Inl e \<longrightarrow> trade_loop n cfg st (s\<lparr>rng := g\<rparr>) = Inl e)
       \<and> (\<forall>s' b. trade_loop n cfg st s = Inr (s', b) \<longrightarrow>
            (\<exists>k \<le> n. rng s' = sdrop (3 * k) (rng s)
               \<and> trade_loop n cfg st (s\<lparr>rng := g\<rparr>) = Inr (s'\<lparr>rng := sdrop (3 * k) g\<rparr>, b)))"
  using assms
proof (induction n arbitrary: s g)
  case 0
  then show ?case by simp
next
  case (Suc n)
  from Suc.prems have three: "stake 3 g = stake 3 (rng s)"
    by (rule stake_agree_le) simp
  from Suc.prems have "stake (3 + 3 * n) g = stake (3 + 3 * n) (rng s)"
    by simp
  then have rest: "stake (3 * n) (sdrop 3 g) = stake (3 * n) (sdrop 3 (rng s))"
    by (rule stake_agree_sdrop)
  note step = trade_step_rng[OF three, of cfg st]
  have ih: "(\<forall>e. trade_loop n cfg st s1 = Inl e \<longrightarrow>
              trade_loop n cfg st (s1\<lparr>rng := sdrop 3 g\<rparr>) = Inl e)
       \<and> (\<forall>s' b. trade_loop n cfg st s1 = Inr (s', b) \<longrightarrow>
            (\<exists>k \<le> n. rng s' = sdrop (3 * k) (rng s1)
               \<and> trade_loop n cfg st (s1\<lparr>rng := sdrop 3 g\<rparr>)
                   = Inr (s'\<lparr>rng := sdrop (3 * k) (sdrop 3 g)\<rparr>, b)))"
    if "trade_step cfg st s = Inr (s1, b1)" for s1 b1
  proof -
    from step(2)[OF that] rest have "stake (3 * n) (sdrop 3 g) = stake (3 * n) (rng s1)"
      by simp
    then show ?thesis by (rule Suc.IH)
  qed
  have other: "trade_step cfg st (s\<lparr>rng := g\<rparr>) = Inr (s1\<lparr>rng := sdrop 3 g\<rparr>, b1)"
    if "trade_step cfg st s = Inr (s1, b1)" for s1 b1
    using step(1) that by simp
  have other_err: "trade_step cfg st (s\<lparr>rng := g\<rparr>) = Inl e"
    if "trade_step cfg st s = Inl e" for e
    using step(1) that by simp
  show ?case
  proof (intro conjI allI impI)
    fix e
    assume "trade_loop (Suc n) cfg st s = Inl e"
    from trade_loop_Suc_Inl[OF this]
    show "trade_loop (Suc n) cfg st (s\<lparr>rng := g\<rparr>) = Inl e"
    proof
      assume "trade_step cfg st s = Inl e"
      from trade_loop_Suc_unfold(1)[OF other_err[OF this]] show ?thesis .
    next
      assume "\<exists>s1. trade_step cfg st s = Inr (s1, False) \<and> trade_loop n cfg st s1 = Inl e"
      then obtain s1 where s1: "trade_step cfg st s = Inr (s1, False)"
        and err: "trade_loop n cfg st s1 = Inl e"
        by blast
      from ih[OF s1] err have "trade_loop n cfg st (s1\<lparr>rng := sdrop 3 g\<rparr>) = Inl e"
        by blast
      with trade_loop_Suc_unfold(3)[OF other[OF s1]] show ?thesis
        by (simp only:)
    qed
  next
    fix s' b
    assume "trade_loop (Suc n) cfg st s = Inr (s', b)"
    from trade_loop_Suc_Inr[OF this]
    show "\<exists>k \<le> Suc n. rng s' = sdrop (3 * k) (rng s)
               \<and> trade_loop (Suc n) cfg st (s\<lparr>rng := g\<rparr>)
                   = Inr (s'\<lparr>rng := sdrop (3 * k) g\<rparr>, b)"
    proof
      assume "trade_step cfg st s = Inr (s', True) \<and> b"
      then have st: "trade_step cfg st s = Inr (s', True)" and b: "b" by simp_all
      have "rng s' = sdrop (3 * 1) (rng s)"
        using step(2)[OF st] by simp
      moreover have "trade_loop (Suc n) cfg st (s\<lparr>rng := g\<rparr>)
          = Inr (s'\<lparr>rng := sdrop (3 * 1) g\<rparr>, b)"
        using trade_loop_Suc_unfold(2)[OF other[OF st]] b by (simp only: mult_1_right)
      moreover have "(1::nat) \<le> Suc n" by simp
      ultimately show ?thesis by blast
    next
      assume "\<exists>s1. trade_step cfg st s = Inr (s1, False) \<and> trade_loop n cfg st s1 = Inr (s', b)"
      then obtain s1 where s1: "trade_step cfg st s = Inr (s1, False)"
        and run: "trade_loop n cfg st s1 = Inr (s', b)"
        by blast
      from ih[OF s1] run obtain k where k: "k \<le> n" "rng s' = sdrop (3 * k) (rng s1)"
        "trade_loop n cfg st (s1\<lparr>rng := sdrop 3 g\<rparr>)
             = Inr (s'\<lparr>rng := sdrop (3 * k) (sdrop 3 g)\<rparr>, b)"
        by blast
      have shift: "sdrop (3 * k) (sdrop 3 h) = sdrop (3 * Suc k) h" for h :: rng
        by (simp add: add.commute)
      have "rng s' = sdrop (3 * Suc k) (rng s)"
        using k(2) step(2)[OF s1] shift by (simp only:)
      moreover have "trade_loop (Suc n) cfg st (s\<lparr>rng := g\<rparr>)
          = Inr (s'\<lparr>rng := sdrop (3 * Suc k) g\<rparr>, b)"
        using trade_loop_Suc_unfold(3)[OF other[OF s1]] k(3) shift by (simp only:)
      moreover have "Suc k \<le> Suc n" using k(1) by simp
      ultimately show ?thesis by blast
    qed
  qed
qed

lemma final_metrics_rng: "final_metrics cfg (s\<lparr>rng := g\<rparr>) = final_metrics cfg s"
  by (cases "equity_curve' s") (simp_all add: final_metrics_def)

lemma init_state_rng: "init_state cfg g2 = (init_state cfg g1)\<lparr>rng := g2\<rparr>"
  by (simp add: init_state_def)

lemma run_single_simulation_rng:
  assumes "stake (3 * nat (num_trades cfg)) g1 = stake (3 * nat (num_trades cfg)) g2"
  shows "(\<forall>e. run_single_simulation cfg st g1 = Inl e \<longrightarrow>
             run_single_simulation cfg st g2 = Inl e)
       \<and> (\<forall>r g1'. run_single_simulation cfg st g1 = Inr (r, g1') \<longrightarrow>
            (\<exists>k \<le> nat (num_trades cfg). g1' = sdrop (3 * k) g1
               \<and> run_single_simulation cfg st g2 = Inr (r, sdrop (3 * k) g2)))"
proof -
  let ?n = "nat (num_trades cfg)"
  let ?s1 = "init_state cfg g1"
  from assms have "stake (3 * ?n) g2 = stake (3 * ?n) (rng ?s1)"
    by (simp add: init_state_def)
  from trade_loop_rng[OF this, of cfg st]
  have loop: "\<forall>e. trade_loop ?n cfg st ?s1 = Inl e \<longrightarrow>
      trade_loop ?n cfg st (init_state cfg g2) = Inl e"
    and loop_ok: "\<forall>s' b. trade_loop ?n cfg st ?s1 = Inr (s', b) \<longrightarrow>
            (\<exists>k \<le> ?n. rng s' = sdrop (3 * k) g1
               \<and> trade_loop ?n cfg st (init_state cfg g2)
                   = Inr (s'\<lparr>rng := sdrop (3 * k) g2\<rparr>, b))"
    by (simp_all only: init_state_rng[of cfg g2 g1, symmetric])
       (simp_all add: init_state_def)
  show ?thesis
  proof (cases "trade_loop ?n cfg st ?s1")
    case (Inl e)
    with loop have "trade_loop ?n cfg st (init_state cfg g2) = Inl e" by blast
    with Inl show ?thesis by (simp add: run_single_simulation_def)
  next
    case (Inr res)
    obtain s' b where res: "res = (s', b)" by (cases res)
    from loop_ok Inr res obtain k where k: "k \<le> ?n" "rng s' = sdrop (3 * k) g1"
      "trade_loop ?n cfg st (init_state cfg g2) = Inr (s'\<lparr>rng := sdrop (3 * k) g2\<rparr>, b)"
      by blast
    show ?thesis
    proof (cases "final_metrics cfg s'")
      case (Inl e)
      with Inr res k(3) show ?thesis
        by (simp add: run_single_simulation_def final_metrics_rng)
    next
      case fin: (Inr r)
      from Inr res fin k(2) have one: "run_single_simulation cfg st g1 = Inr (r, sdrop (3 * k) g1)"
        by (simp add: run_single_simulation_def)
      from k(3) fin have two: "run_single_simulation cfg st g2 = Inr (r, sdrop (3 * k) g2)"
        by (simp add: run_single_simulation_def final_metrics_rng)
      from one two k(1) show ?thesis by auto
    qed
  qed
qed

lemma run_trajectories_rng:
  assumes "stake (3 * m * nat (num_trades cfg)) g1 = stake (3 * m * nat (num_trades cfg)) g2"
  shows "(\<forall>e. run_trajectories m cfg st rs g1 = Inl e \<longrightarrow>
             run_trajectories m cfg st rs g2 = Inl e)
       \<and> (\<forall>rs' g1'. run_trajectories m cfg st rs g1 = Inr (rs', g1') \<longrightarrow>
            (\<exists>g2'. run_trajectories m cfg st rs g2 = Inr (rs', g2')))"
  using assms
proof (induction m arbitrary: rs g1 g2)
  case 0
  then show ?case by simp
next
  case (Suc m)
  let ?n = "nat (num_trades cfg)"
  from Suc.prems have all: "stake (3 * ?n + 3 * m * ?n) g1 = stake (3 * ?n + 3 * m * ?n) g2"
    by (simp add: algebra_simps)
  then have "stake (3 * ?n) g1 = stake (3 * ?n) g2"
    by (rule stake_agree_le) simp
  note single = run_single_simulation_rng[OF this, of st]
  show ?case
  proof (cases "run_single_simulation cfg st g1")
    case (Inl e)
    with single have "run_single_simulation cfg st g2 = Inl e" by blast
    with Inl show ?thesis by simp
  next
    case (Inr res)
    obtain r g1' where res: "res = (r, g1')" by (cases res)
    from single Inr res obtain k where k: "k \<le> ?n" "g1' = sdrop (3 * k) g1"
      "run_single_simulation cfg st g2 = Inr (r, sdrop (3 * k) g2)"
      by blast
    from k(1) have "3 * k + 3 * m * ?n \<le> 3 * ?n + 3 * m * ?n" by simp
    with all have "stake (3 * k + 3 * m * ?n) g1 = stake (3 * k + 3 * m * ?n) g2"
      by (rule stake_agree_le)
    then have "stake (3 * m * ?n) (sdrop (3 * k) g1) = stake (3 * m * ?n) (sdrop (3 * k) g2)"
      by (rule stake_agree_sdrop)
    from Suc.IH[OF this, of "rs @ [r]"] Inr res k(2,3) show ?thesis
      by simp
  qed
qed

text \<open>
  C8, as the code has it. The code has no master seed: \<^verbatim>\<open>run_simulation\<close>
  neither takes nor sets one, and draws from the process-wide generator. What it returns is
  determined by the configuration, the statistics and the samples the generator hands out,
  three per trade: two runs whose generators agree on the first \<open>3 * M * N\<close> samples
  end alike, with the same analysis and the same results or with the same error.
\<close>

theorem same_draws_same_analysis:
  assumes "stake (3 * nat (num_simulations cfg) * nat (num_trades cfg)) g1
         = stake (3 * nat (num_simulations cfg) * nat (num_trades cfg)) g2"
  shows "map_sum id (\<lambda>(a, results, g). (a, results)) (run_simulation cfg st g1)
       = map_sum id (\<lambda>(a, results, g). (a, results)) (run_simulation cfg st g2)"
proof -
  let ?m = "nat (num_simulations cfg)"
  note runs = run_trajectories_rng[OF assms, of st "[]"]
  show ?thesis
  proof (cases "run_trajectories ?m cfg st [] g1")
    case (Inl e)
    with runs have "run_trajectories ?m cfg st [] g2 = Inl e" by blast
    with Inl show ?thesis by (simp add: run_simulation_def)
  next
    case (Inr res)
    obtain rs g1' where res: "res = (rs, g1')" by (cases res)
    from runs Inr res obtain g2' where "run_trajectories ?m cfg st [] g2 = Inr (rs, g2')"
      by blast
    with Inr res show ?thesis
      by (cases "analyze_results cfg rs") (simp_all add: run_simulation_def)
  qed
qed

theorem same_draws_same_analysis_witness:
  "stake 3 mixed_draws = stake 3 winning_draws
   \<and> shd (sdrop 4 mixed_draws) \<noteq> shd (sdrop 4 winning_draws)
   \<and> map_sum id (\<lambda>(a, results, g). (a, results))
        (run_simulation (default_config\<lparr>num_simulations := 1, num_trades := 1\<rparr>)
           default_stats mixed_draws)
     = map_sum id (\<lambda>(a, results, g). (a, results))
        (run_simulation (default_config\<lparr>num_simulations := 1, num_trades := 1\<rparr>)
           default_stats winning_draws)"
proof -
  let ?cfg = "default_config\<lparr>num_simulations := 1, num_trades := 1\<rparr>"
  have three: "stake 3 mixed_draws = stake 3 winning_draws"
    by (simp add: stake_3 example_defs)
  then have "stake (3 * nat (num_simulations ?cfg) * nat (num_trades ?cfg)) mixed_draws
         = stake (3 * nat (num_simulations ?cfg) * nat (num_trades ?cfg)) winning_draws"
    by (simp add: example_defs)
  from same_draws_same_analysis[OF this, of default_stats] three show ?thesis
    by (simp add: example_defs eval_nat_numeral)
qed

text \<open>
  Two runs of one configuration in one process: the second goes on with the generator the
  first left behind, and its analysis differs.
\<close>

theorem rerun_counterexample:
  "\<exists>a1 rs1 g1 a2 rs2 g2.
      run_simulation (default_config\<lparr>num_simulations := 1, num_trades := 1\<rparr>) default_stats
        mixed_draws = Inr (a1, rs1, g1)
    \<and> run_simulation (default_config\<lparr>num_simulations := 1, num_trades := 1\<rparr>) default_stats
        g1 = Inr (a2, rs2, g2)
    \<and> probability_of_profit a1 = 100 \<and> probability_of_profit a2 = 0
    \<and> a1 \<noteq> a2"
proof -
  let ?cfg = "default_config\<lparr>num_simulations := 1, num_trades := 1\<rparr>"
  have first: "\<exists>a1 rs1. run_simulation ?cfg default_stats mixed_draws = Inr (a1, rs1, losing_draws)
      \<and> probability_of_profit a1 = 100"
    by (simp add: analysis_defs trajectory_defs example_defs)
  have second: "\<exists>a2 rs2 g2. run_simulation ?cfg default_stats losing_draws = Inr (a2, rs2, g2)
      \<and> probability_of_profit a2 = 0"
    by (simp add: analysis_defs trajectory_defs example_defs)
  from first second show ?thesis by fastforce
qed

end
